theory Spec2Isabelle
  imports Main "HOL-Library.Word"
begin

section \<open>Data model of TouchDSODisplay.cpp\<close>

text \<open>
  The display functions of the DSO read compile-time constants, colour macros and the
  per-range scale table from the headers Pages.h and TouchDSO.h, whose values are not
  fixed here. They are parameters of the model: the record \<open>constants\<close> holds one
  field per macro, under the macro's name, and every function below takes it as its
  first argument. \<open>LOCAL_DISPLAY_EXISTS\<close> is the preprocessor switch that selects the
  code between \<^verbatim>\<open>#ifdef LOCAL_DISPLAY_EXISTS\<close> and \<^verbatim>\<open>#endif\<close>.
\<close>

type_synonym Color_t = nat

datatype TriggerMode_t = TRIGGER_MODE_AUTOMATIC | TRIGGER_MODE_MANUAL | TRIGGER_MODE_OFF

datatype DrawMode_t = DRAW_MODE_REGULAR | DRAW_MODE_CLEAR_OLD | DRAW_MODE_CLEAR_OLD_MIN

record constants =
  LOCAL_DISPLAY_EXISTS :: bool
  DSO_DISPLAY_WIDTH :: int
  DSO_DISPLAY_HEIGHT :: int
  DISPLAY_VALUE_FOR_ZERO :: int
  DISPLAYBUFFER_INVISIBLE_VALUE :: int
  DATABUFFER_INVISIBLE_RAW_VALUE :: int
  DSO_SCALE_FACTOR_SHIFT :: nat
  TIMING_GRID_WIDTH :: int
  TRIGGER_HIGH_DISPLAY_OFFSET :: int
  DATABUFFER_MIN_OFFSET :: int
  DATABUFFER_DISPLAY_END :: nat
  DATABUFFER_PRE_TRIGGER_SIZE :: nat
  FFT_SIZE :: nat
  COLOR_BACKGROUND_DSO :: Color_t
  COLOR_GRID_LINES :: Color_t
  COLOR_DATA_HOLD :: Color_t
  COLOR_TRIGGER_LINE :: Color_t
  COLOR_MAX_MIN_LINE :: Color_t
  COLOR_DATA_TRIGGER :: Color_t
  COLOR_DATA_RUN_CLIPPING :: Color_t
  COLOR_FFT_DATA :: Color_t

text \<open>
  The fields of the global \<open>MeasurementControl\<close> that the display code reads, together
  with the table \<open>ScaleFactorRawToDisplayShift18\<close> (an array indexed by the range).
  The display code never writes them.
\<close>

record MeasurementControlStruct =
  ChannelIsACMode :: bool
  RawDSOReadingACZero :: int
  RawOffsetValueForDisplayRange :: int
  DisplayRangeIndex :: nat
  ScaleFactorRawToDisplayShift18 :: "nat \<Rightarrow> int"
  RawValueMax :: int
  RawValueMin :: int
  RawTriggerLevel :: int
  TriggerMode :: TriggerMode_t
  isRunning :: bool
  isEffectiveMinMaxMode :: bool

text \<open>
  The render sink. Every call on \<open>BlueDisplay1\<close> or \<open>LocalDisplay\<close> is logged, in the
  order of the calls, with its arguments; a function that draws takes the log and
  returns it extended.
\<close>

datatype display = BlueDisplay1 | LocalDisplay

datatype draw_cmd =
    DrawPixel display int int Color_t
  | DrawLineRel display int int int int Color_t
  | DrawLineFastOneX display int int int Color_t
  | FillRect display int int int int Color_t
  | DrawChartByteBuffer display int int Color_t Color_t int bool "8 word list"

type_synonym sink = "draw_cmd list"

text \<open>The fields of the global \<open>DisplayControl\<close> that the functions below read.\<close>

record DisplayControlStruct =
  XScale :: int
  showTriggerInfoLine :: bool
  drawPixelMode :: bool
  EraseColor :: Color_t
  TriggerLevelDisplayValue :: int
  ShowFFT :: bool

text \<open>
  The global display buffers, arrays of \<open>uint8_t\<close>, and the sink. \<open>DisplayBuffer\<close>,
  \<open>DisplayBufferMin\<close> and \<open>DisplayBuffer2\<close> are declared with \<open>DSO_DISPLAY_WIDTH\<close>
  entries and \<open>DisplayBufferFFT\<close> with \<open>FFT_SIZE / 2\<close>. A store through a pointer or
  index is a list update and keeps the low 8 bits of the value.
\<close>

record Screen =
  DisplayBufferFFT :: "8 word list"
  DisplayBuffer :: "8 word list"
  DisplayBufferMin :: "8 word list"
  DisplayBuffer2 :: "8 word list"
  Sink :: sink

definition emit :: "draw_cmd list \<Rightarrow> ('a Screen_scheme) \<Rightarrow> ('a Screen_scheme)" where
  "emit cmds s = s\<lparr>Sink := Sink s @ cmds\<rparr>"

section \<open>C integer arithmetic\<close>

text \<open>
  \<open>int\<close> is 32 bits wide on the target. The model computes on mathematical integers
  and reduces the result of every operation that can leave the range to its
  two's-complement value (\<open>wrap32\<close>). \<open>>>\<close> on an \<open>int\<close> is the arithmetic shift, that
  is the division by a power of two rounded down; \<open>/\<close> truncates towards zero
  (\<open>c_div\<close>), and a division by zero has no result.
\<close>

definition wrap32 :: "int \<Rightarrow> int" where
  "wrap32 x = (x + 2 ^ 31) mod 2 ^ 32 - 2 ^ 31"

definition fits32 :: "int \<Rightarrow> bool" where
  "fits32 x = (- (2 ^ 31) \<le> x \<and> x < 2 ^ 31)"

definition c_div :: "int \<Rightarrow> int \<Rightarrow> int" where
  "c_div a b = (if (a < 0) = (b < 0) then \<bar>a\<bar> div \<bar>b\<bar> else - (\<bar>a\<bar> div \<bar>b\<bar>))"

section \<open>RAW to display value section\<close>

text \<open>The factor of the selected range, \<open>ScaleFactorRawToDisplayShift18[DisplayRangeIndex]\<close>.\<close>

definition scaleFactor :: "MeasurementControlStruct \<Rightarrow> int" where
  "scaleFactor M = ScaleFactorRawToDisplayShift18 M (DisplayRangeIndex M)"

definition getDisplayFrowRawInputValue ::
  "constants \<Rightarrow> MeasurementControlStruct \<Rightarrow> int \<Rightarrow> int" where
  "getDisplayFrowRawInputValue K M aAdcValue =
    (if aAdcValue = DATABUFFER_INVISIBLE_RAW_VALUE K then DISPLAYBUFFER_INVISIBLE_VALUE K
     else
       let a1 = (if ChannelIsACMode M then wrap32 (aAdcValue - RawDSOReadingACZero M)
                 else aAdcValue);
           a2 = wrap32 (a1 - RawOffsetValueForDisplayRange M)
       in if a2 < 0 then DISPLAY_VALUE_FOR_ZERO K
          else
            let a3 = wrap32 (a2 * scaleFactor M);
                a4 = a3 div 2 ^ DSO_SCALE_FACTOR_SHIFT K
            in if a4 > DISPLAY_VALUE_FOR_ZERO K then 0
               else wrap32 (DISPLAY_VALUE_FOR_ZERO K - a4))"

text \<open>
  \<open>getDisplayFrowMultipleRawValues\<close> sums \<open>aCount\<close> samples starting at the data
  pointer and maps their quotient. The data buffer is a list of 16 bit samples and the
  pointer an index into it.
\<close>

definition readRaw :: "16 word list \<Rightarrow> int \<Rightarrow> int" where
  "readRaw buf p = uint (buf ! nat p)"

primrec sumRaw :: "16 word list \<Rightarrow> int \<Rightarrow> nat \<Rightarrow> int \<Rightarrow> int" where
  "sumRaw buf p 0 tAdcValue = tAdcValue"
| "sumRaw buf p (Suc n) tAdcValue = sumRaw buf (p + 1) n (wrap32 (tAdcValue + readRaw buf p))"

definition getDisplayFrowMultipleRawValues ::
  "constants \<Rightarrow> MeasurementControlStruct \<Rightarrow> 16 word list \<Rightarrow> int \<Rightarrow> int \<Rightarrow> int option" where
  "getDisplayFrowMultipleRawValues K M buf aAdcValuePtr aCount =
    (if aCount = 0 then None
     else Some (getDisplayFrowRawInputValue K M
                  (wrap32 (c_div (sumRaw buf aAdcValuePtr (nat aCount) 0) aCount))))"

definition getInputRawFromDisplayValue ::
  "constants \<Rightarrow> MeasurementControlStruct \<Rightarrow> int \<Rightarrow> int option" where
  "getInputRawFromDisplayValue K M aValue =
    (let v1 = wrap32 (DISPLAY_VALUE_FOR_ZERO K - aValue);
         v2 = wrap32 (v1 * 2 ^ DSO_SCALE_FACTOR_SHIFT K)
     in if scaleFactor M = 0 then None
        else
          let v3 = wrap32 (c_div v2 (scaleFactor M));
              v4 = wrap32 (v3 + RawOffsetValueForDisplayRange M)
          in Some (if ChannelIsACMode M then wrap32 (v4 + RawDSOReadingACZero M) else v4))"

section \<open>Trigger line and min, max lines\<close>

text \<open>
  \<open>clearTriggerLine\<close>: the first loop restores the grid, the second the graph. The grid
  loop advances by \<open>TIMING_GRID_WIDTH\<close>; entered with a width that is not positive it
  never leaves, and the function has no result then (\<open>None\<close>).
\<close>

function restoreGrid :: "constants \<Rightarrow> int \<Rightarrow> int \<Rightarrow> sink \<Rightarrow> sink" where
  "restoreGrid K aTriggerLevelDisplayValue tXPos out =
    (if 0 < TIMING_GRID_WIDTH K \<and> tXPos < DSO_DISPLAY_WIDTH K - 1
     then restoreGrid K aTriggerLevelDisplayValue (tXPos + TIMING_GRID_WIDTH K)
            (out @ [DrawPixel BlueDisplay1 tXPos aTriggerLevelDisplayValue (COLOR_GRID_LINES K)])
     else out)"
  by pat_completeness auto
termination
  by (relation "measure (\<lambda>(K, y, tXPos, out). nat (DSO_DISPLAY_WIDTH K - 1 - tXPos))") auto

declare restoreGrid.simps [simp del]

primrec restoreGraph ::
  "constants \<Rightarrow> 8 word list \<Rightarrow> int \<Rightarrow> nat \<Rightarrow> nat \<Rightarrow> sink \<Rightarrow> sink" where
  "restoreGraph K buf aTriggerLevelDisplayValue 0 i out = out"
| "restoreGraph K buf aTriggerLevelDisplayValue (Suc n) i out =
    restoreGraph K buf aTriggerLevelDisplayValue n (Suc i)
      (let tValueByte = uint (buf ! i)
       in if tValueByte = aTriggerLevelDisplayValue
          then out @ [DrawPixel BlueDisplay1 (int i) tValueByte (COLOR_DATA_HOLD K)]
          else out)"

definition clearTriggerLine ::
  "constants \<Rightarrow> MeasurementControlStruct \<Rightarrow> 8 word \<Rightarrow> 'a Screen_scheme
     \<Rightarrow> 'a Screen_scheme option" where
  "clearTriggerLine K M aTriggerLevelDisplayValue s =
    (let y = uint aTriggerLevelDisplayValue;
         out1 = Sink s @ [DrawLineRel BlueDisplay1 0 y (DSO_DISPLAY_WIDTH K) 0
                            (COLOR_BACKGROUND_DSO K)]
     in if TIMING_GRID_WIDTH K \<le> 0 \<and> TIMING_GRID_WIDTH K - 1 < DSO_DISPLAY_WIDTH K - 1
        then None
        else
          let out2 = restoreGrid K y (TIMING_GRID_WIDTH K - 1) out1
          in Some (s\<lparr>Sink :=
               (if \<not> isRunning M
                then restoreGraph K (DisplayBuffer s) y (nat (DSO_DISPLAY_WIDTH K)) 0 out2
                else out2)\<rparr>))"

definition drawTriggerLine ::
  "constants \<Rightarrow> MeasurementControlStruct \<Rightarrow> DisplayControlStruct \<Rightarrow> sink \<Rightarrow> sink" where
  "drawTriggerLine K M D out =
    (if TriggerLevelDisplayValue D \<noteq> 0 \<and> TriggerMode M \<noteq> TRIGGER_MODE_OFF
     then out @ [DrawLineRel BlueDisplay1 0 (TriggerLevelDisplayValue D) (DSO_DISPLAY_WIDTH K) 0
                   (COLOR_TRIGGER_LINE K)]
     else out)"

definition drawMinMaxLines :: "constants \<Rightarrow> MeasurementControlStruct \<Rightarrow> sink \<Rightarrow> sink" where
  "drawMinMaxLines K M out =
    (let tValueDisplay = getDisplayFrowRawInputValue K M (RawValueMax M);
         out1 = (if tValueDisplay \<noteq> 0
                 then out @ [DrawLineRel BlueDisplay1 0 tValueDisplay (DSO_DISPLAY_WIDTH K) 0
                               (COLOR_MAX_MIN_LINE K)]
                 else out);
         tValueDisplay2 = getDisplayFrowRawInputValue K M (RawValueMin M)
     in if tValueDisplay2 \<noteq> DISPLAY_VALUE_FOR_ZERO K
        then out1 @ [DrawLineRel BlueDisplay1 0 tValueDisplay2 (DSO_DISPLAY_WIDTH K) 0
                       (COLOR_MAX_MIN_LINE K)]
        else out1)"

section \<open>Fast FFT bars\<close>

text \<open>
  \<open>draw128FFTValuesFast\<close> takes its bar heights from \<open>computeFFT\<close>, in floating
  point. The model starts after the conversion: \<open>tScaled k\<close> is the 16 bit value that
  the assignment \<^verbatim>\<open>tDisplayY = tYDisplayScaleFactor * tInputValue\<close> leaves in
  \<open>tDisplayY\<close> in the iteration that reads the \<open>k\<close>-th FFT value. The two statistics the
  function copies to \<open>MeasurementControl\<close> are floating point values and are left out.
\<close>

function draw128FFTValuesLoop ::
  "constants \<Rightarrow> Color_t \<Rightarrow> (nat \<Rightarrow> 16 word) \<Rightarrow> int \<Rightarrow> nat \<Rightarrow> 'a Screen_scheme
     \<Rightarrow> 'a Screen_scheme" where
  "draw128FFTValuesLoop K aColor tScaled tDisplayX k s =
    (if tDisplayX < DSO_DISPLAY_WIDTH K then
       let tDisplayY = (word_of_int (DSO_DISPLAY_HEIGHT K) - tScaled k :: 16 word);
           DisplayYOld = (ucast (DisplayBufferFFT s ! k) :: 16 word);
           s1 = (if tDisplayY < DisplayYOld
                 then emit [FillRect BlueDisplay1 tDisplayX (uint tDisplayY) (tDisplayX + 2)
                              (uint DisplayYOld) aColor] s
                 else if tDisplayY > DisplayYOld
                 then emit [FillRect BlueDisplay1 tDisplayX (uint DisplayYOld) (tDisplayX + 2)
                              (uint tDisplayY) (COLOR_BACKGROUND_DSO K)] s
                 else s);
           s2 = s1\<lparr>DisplayBufferFFT := (DisplayBufferFFT s1)[k := ucast tDisplayY]\<rparr>
       in draw128FFTValuesLoop K aColor tScaled (tDisplayX + 3) (Suc k) s2
     else s)"
  by pat_completeness auto
termination
  by (relation "measure (\<lambda>(K, aColor, tScaled, tDisplayX, k, s). nat (DSO_DISPLAY_WIDTH K - tDisplayX))")
    auto

declare draw128FFTValuesLoop.simps [simp del]

definition draw128FFTValuesFast ::
  "constants \<Rightarrow> DisplayControlStruct \<Rightarrow> Color_t \<Rightarrow> (nat \<Rightarrow> 16 word) \<Rightarrow> 'a Screen_scheme
     \<Rightarrow> 'a Screen_scheme" where
  "draw128FFTValuesFast K D aColor tScaled s =
    (if ShowFFT D then draw128FFTValuesLoop K aColor tScaled 0 0 s else s)"

section \<open>Drawing while acquiring\<close>

text \<open>
  \<open>drawRemainingDataBufferValues\<close> works on the globals of \<open>DataBufferControl\<close>. The
  data buffer is only read; the draw pointer (an index into the data buffer) and
  \<open>NextDrawXValue\<close> are written. The next-in pointer and the two flags of the loop
  condition belong to the acquisition, which runs in interrupts while the loop draws:
  the model reads them afresh at every test of the loop condition, \<open>acq k\<close> being what
  the test after \<open>k\<close> completed iterations reads.
\<close>

record dso_state = Screen +
  DataBufferNextDrawPointer :: nat
  NextDrawXValue :: int

record AcquisitionSignals =
  DataBufferNextInPointer :: nat
  TriggerPhaseJustEnded :: bool
  DataBufferPreTriggerAreaWrapAround :: bool

definition c_mod :: "int \<Rightarrow> int \<Rightarrow> int" where
  "c_mod a b = a - b * c_div a b"

definition loopCondition :: "constants \<Rightarrow> AcquisitionSignals \<Rightarrow> nat \<Rightarrow> bool" where
  "loopCondition K A p =
    (p < DataBufferNextInPointer A \<and> p \<le> DATABUFFER_DISPLAY_END K \<and>
     \<not> TriggerPhaseJustEnded A \<and> \<not> DataBufferPreTriggerAreaWrapAround A)"

text \<open>The column that an iteration works on: \<open>NextDrawXValue\<close>, or 0 after the wrap around.\<close>

definition displayX :: "constants \<Rightarrow> int \<Rightarrow> int" where
  "displayX K aNextDrawXValue =
    (if aNextDrawXValue \<ge> DSO_DISPLAY_WIDTH K then 0 else aNextDrawXValue)"

text \<open>
  Clear old pixel / line at column \<open>tDisplayX\<close>. The two bytes read from the screen
  buffers are \<^verbatim>\<open>unsigned int\<close> in the code and are kept as the integers \<open>0 .. 255\<close>.
  The remainder \<^verbatim>\<open>tDisplayX % TIMING_GRID_WIDTH\<close> is taken on a column that is not
  negative; the grid width is a constant of the headers other than zero.
\<close>

definition clearOld ::
  "constants \<Rightarrow> MeasurementControlStruct \<Rightarrow> DisplayControlStruct \<Rightarrow> int
     \<Rightarrow> 'a Screen_scheme \<Rightarrow> 'a Screen_scheme" where
  "clearOld K M D tDisplayX s =
    (let tValue = uint (DisplayBuffer s ! nat tDisplayX);
         tValueMin = uint (DisplayBufferMin s ! nat tDisplayX)
     in if LOCAL_DISPLAY_EXISTS K \<and> drawPixelMode D then
          let tColor = (if c_mod tDisplayX (TIMING_GRID_WIDTH K) = TIMING_GRID_WIDTH K - 1
                        then COLOR_GRID_LINES K else EraseColor D)
          in if tValue \<noteq> DISPLAYBUFFER_INVISIBLE_VALUE K
             then emit (DrawPixel BlueDisplay1 tDisplayX tValue tColor #
                        (if isEffectiveMinMaxMode M
                         then [DrawPixel BlueDisplay1 tDisplayX tValueMin tColor] else [])) s
             else s
        else if tDisplayX < DSO_DISPLAY_WIDTH K - 1 then
          let tNextValue = uint (DisplayBuffer s ! nat (tDisplayX + 1))
          in if tNextValue \<noteq> DISPLAYBUFFER_INVISIBLE_VALUE K then
               if tValue \<noteq> DISPLAYBUFFER_INVISIBLE_VALUE K
               then emit (DrawLineFastOneX BlueDisplay1 tDisplayX tValue tNextValue (EraseColor D) #
                          (if isEffectiveMinMaxMode M
                           then [DrawLineFastOneX BlueDisplay1 tDisplayX tValueMin
                                   (uint (DisplayBufferMin s ! nat (tDisplayX + 1))) (EraseColor D)]
                           else [])) s
               else emit (DrawPixel BlueDisplay1 (tDisplayX + 1) tNextValue (EraseColor D) #
                          (if isEffectiveMinMaxMode M
                           then [DrawPixel BlueDisplay1 (tDisplayX + 1)
                                   (uint (DisplayBufferMin s ! nat (tDisplayX + 1))) (EraseColor D)]
                           else [])) s
             else s
        else s)"

text \<open>
  Get new value: the sample under the draw pointer is mapped and stored; in min max
  mode the sample \<open>DATABUFFER_MIN_OFFSET\<close> further is mapped and stored as well,
  otherwise \<open>tValueMin\<close> keeps the byte read from \<open>DisplayBufferMin\<close> before.
\<close>

definition getNewValue ::
  "constants \<Rightarrow> MeasurementControlStruct \<Rightarrow> 16 word list \<Rightarrow> nat \<Rightarrow> int
     \<Rightarrow> 'a Screen_scheme \<Rightarrow> (int \<times> int \<times> 'a Screen_scheme)" where
  "getNewValue K M DataBuffer aNextDrawPointer tDisplayX s =
    (let tValue = getDisplayFrowRawInputValue K M (readRaw DataBuffer (int aNextDrawPointer));
         s1 = s\<lparr>DisplayBuffer := (DisplayBuffer s)[nat tDisplayX := word_of_int tValue]\<rparr>
     in if isEffectiveMinMaxMode M then
          let tValueMin = getDisplayFrowRawInputValue K M
                (readRaw DataBuffer (int aNextDrawPointer + DATABUFFER_MIN_OFFSET K))
          in (tValue, tValueMin,
              s1\<lparr>DisplayBufferMin := (DisplayBufferMin s1)[nat tDisplayX := word_of_int tValueMin]\<rparr>)
        else (tValue, uint (DisplayBufferMin s ! nat tDisplayX), s1))"

text \<open>Draw the new pixel, or the line from the column before.\<close>

definition drawNew ::
  "constants \<Rightarrow> MeasurementControlStruct \<Rightarrow> DisplayControlStruct \<Rightarrow> Color_t \<Rightarrow> int \<Rightarrow> int \<Rightarrow> int
     \<Rightarrow> 'a Screen_scheme \<Rightarrow> 'a Screen_scheme" where
  "drawNew K M D aDrawColor tDisplayX tValue tValueMin s =
    (if LOCAL_DISPLAY_EXISTS K \<and> drawPixelMode D then
       if tValue \<noteq> DISPLAYBUFFER_INVISIBLE_VALUE K
       then emit (DrawPixel BlueDisplay1 tDisplayX tValue aDrawColor #
                  (if isEffectiveMinMaxMode M
                   then [DrawPixel BlueDisplay1 tDisplayX tValueMin aDrawColor] else [])) s
       else s
     else if tDisplayX \<noteq> 0 \<and> tDisplayX \<le> DSO_DISPLAY_WIDTH K - 1 then
       if tValue \<noteq> DISPLAYBUFFER_INVISIBLE_VALUE K then
         let tLastValue = uint (DisplayBuffer s ! nat (tDisplayX - 1))
         in if tLastValue \<noteq> DISPLAYBUFFER_INVISIBLE_VALUE K
            then emit (DrawLineFastOneX BlueDisplay1 (tDisplayX - 1) tLastValue tValue aDrawColor #
                       (if isEffectiveMinMaxMode M
                        then [DrawLineFastOneX BlueDisplay1 (tDisplayX - 1)
                                (uint (DisplayBufferMin s ! nat (tDisplayX - 1))) tValueMin aDrawColor]
                        else [])) s
            else emit (DrawPixel BlueDisplay1 tDisplayX tValue aDrawColor #
                       (if isEffectiveMinMaxMode M
                        then [DrawPixel BlueDisplay1 tDisplayX tValueMin aDrawColor] else [])) s
       else s
     else s)"

text \<open>One iteration of the loop, up to the increment of the draw pointer.\<close>

definition drawColumn ::
  "constants \<Rightarrow> MeasurementControlStruct \<Rightarrow> DisplayControlStruct \<Rightarrow> 16 word list \<Rightarrow> Color_t
     \<Rightarrow> (nat \<Rightarrow> 16 word) \<Rightarrow> dso_state \<Rightarrow> dso_state" where
  "drawColumn K M D DataBuffer aDrawColor tScaled s =
    (let s1 = (if int (DataBufferNextDrawPointer s) =
                   int (DATABUFFER_PRE_TRIGGER_SIZE K) + int (FFT_SIZE K) - 1
               then draw128FFTValuesFast K D (COLOR_FFT_DATA K) tScaled s else s);
         tDisplayX = displayX K (NextDrawXValue s);
         s2 = s1\<lparr>NextDrawXValue := tDisplayX + 1\<rparr>;
         s3 = clearOld K M D tDisplayX s2;
         (tValue, tValueMin, s4) = getNewValue K M DataBuffer (DataBufferNextDrawPointer s) tDisplayX s3
     in drawNew K M D aDrawColor tDisplayX tValue tValueMin s4)"

text \<open>The body of the loop: the column, then \<open>DataBufferNextDrawPointer++\<close>.\<close>

definition drawRemainingStep ::
  "constants \<Rightarrow> MeasurementControlStruct \<Rightarrow> DisplayControlStruct \<Rightarrow> 16 word list \<Rightarrow> Color_t
     \<Rightarrow> (nat \<Rightarrow> 16 word) \<Rightarrow> dso_state \<Rightarrow> dso_state" where
  "drawRemainingStep K M D DataBuffer aDrawColor tScaled s =
    (drawColumn K M D DataBuffer aDrawColor tScaled s)
      \<lparr>DataBufferNextDrawPointer := Suc (DataBufferNextDrawPointer s)\<rparr>"

function drawRemainingLoop ::
  "constants \<Rightarrow> MeasurementControlStruct \<Rightarrow> DisplayControlStruct \<Rightarrow> 16 word list
     \<Rightarrow> (nat \<Rightarrow> AcquisitionSignals) \<Rightarrow> Color_t \<Rightarrow> (nat \<Rightarrow> 16 word) \<Rightarrow> nat \<Rightarrow> dso_state
     \<Rightarrow> dso_state" where
  "drawRemainingLoop K M D DataBuffer acq aDrawColor tScaled k s =
    (if loopCondition K (acq k) (DataBufferNextDrawPointer s)
     then drawRemainingLoop K M D DataBuffer acq aDrawColor tScaled (Suc k)
            (drawRemainingStep K M D DataBuffer aDrawColor tScaled s)
     else s)"
  by pat_completeness auto
termination
  by (relation "measure (\<lambda>(K, M, D, DataBuffer, acq, aDrawColor, tScaled, k, s).
        Suc (DATABUFFER_DISPLAY_END K) - DataBufferNextDrawPointer s)")
    (auto simp add: loopCondition_def drawRemainingStep_def)

declare drawRemainingLoop.simps [simp del]

definition drawRemainingDataBufferValues ::
  "constants \<Rightarrow> MeasurementControlStruct \<Rightarrow> DisplayControlStruct \<Rightarrow> 16 word list
     \<Rightarrow> (nat \<Rightarrow> AcquisitionSignals) \<Rightarrow> Color_t \<Rightarrow> (nat \<Rightarrow> 16 word) \<Rightarrow> dso_state
     \<Rightarrow> dso_state" where
  "drawRemainingDataBufferValues K M D DataBuffer acq aDrawColor tScaled s =
    drawRemainingLoop K M D DataBuffer acq aDrawColor tScaled 0 s"

section \<open>Drawing a whole data buffer\<close>

text \<open>
  The locals of \<open>drawDataBuffer\<close> that live across the iterations, on top of the
  globals. The two screen buffer pointers are a buffer and an index into it;
  \<open>ScreenBufferWritePointer2\<close> is an index into \<open>DisplayBuffer2\<close>.
\<close>

datatype buffer_id = InDisplayBuffer | InDisplayBufferMin

record bulk_state = Screen +
  tDataBufferPointer :: int
  ScreenBufferReadPointer :: "buffer_id \<times> nat"
  ScreenBufferWritePointer1 :: "buffer_id \<times> nat"
  ScreenBufferWritePointer2 :: nat
  tXScaleCounter :: int
  tCounterForTimingGridRestore :: int
  tLastValue :: int
  tLastValueClear :: int

definition readScreen :: "'a Screen_scheme \<Rightarrow> buffer_id \<times> nat \<Rightarrow> int" where
  "readScreen s p =
    (case fst p of InDisplayBuffer \<Rightarrow> uint (DisplayBuffer s ! snd p)
     | InDisplayBufferMin \<Rightarrow> uint (DisplayBufferMin s ! snd p))"

definition writeScreen :: "buffer_id \<times> nat \<Rightarrow> int \<Rightarrow> 'a Screen_scheme \<Rightarrow> 'a Screen_scheme" where
  "writeScreen p v s =
    (case fst p of
       InDisplayBuffer \<Rightarrow> s\<lparr>DisplayBuffer := (DisplayBuffer s)[snd p := word_of_int v]\<rparr>
     | InDisplayBufferMin \<Rightarrow> s\<lparr>DisplayBufferMin := (DisplayBufferMin s)[snd p := word_of_int v]\<rparr>)"

definition nextEntry :: "buffer_id \<times> nat \<Rightarrow> buffer_id \<times> nat" where
  "nextEntry p = (fst p, Suc (snd p))"

text \<open>
  The value of a column: the old byte of the screen buffer when erasing, else the
  mapped sample, with the X scaling applied to the data pointer.
\<close>

definition fetchValue ::
  "constants \<Rightarrow> MeasurementControlStruct \<Rightarrow> int \<Rightarrow> 16 word list \<Rightarrow> DrawMode_t
     \<Rightarrow> 'a bulk_state_scheme \<Rightarrow> (int \<times> 'a bulk_state_scheme) option" where
  "fetchValue K M tXScale DataBuffer aDrawMode s =
    (if aDrawMode \<noteq> DRAW_MODE_REGULAR then Some (readScreen s (ScreenBufferReadPointer s), s)
     else
       let p = tDataBufferPointer s;
           c = tXScaleCounter s;
           tValue = getDisplayFrowRawInputValue K M (readRaw DataBuffer p)
       in if tXScale = 0 then Some (tValue, s\<lparr>tDataBufferPointer := p + 1\<rparr>)
          else if tXScale < - 1 then
            (case getDisplayFrowMultipleRawValues K M DataBuffer p c of
               None \<Rightarrow> None
             | Some v \<Rightarrow> Some (v, s\<lparr>tDataBufferPointer := p + c\<rparr>))
          else if tXScale = - 1 then
            (if c - 1 < 0 then
               (if tValue \<noteq> DISPLAYBUFFER_INVISIBLE_VALUE K
                then Some (c_div (wrap32 (tValue +
                               getDisplayFrowRawInputValue K M (readRaw DataBuffer (p + 1)))) 2,
                           s\<lparr>tDataBufferPointer := p + 2, tXScaleCounter := 1\<rparr>)
                else Some (tValue, s\<lparr>tDataBufferPointer := p + 1, tXScaleCounter := 1\<rparr>))
             else Some (tValue, s\<lparr>tDataBufferPointer := p + 1, tXScaleCounter := c - 1\<rparr>))
          else if tXScale = 1 then
            (if c - 1 < 0
             then Some (tValue, s\<lparr>tDataBufferPointer := p + 1 - 1, tXScaleCounter := 2\<rparr>)
             else Some (tValue, s\<lparr>tDataBufferPointer := p + 1, tXScaleCounter := c - 1\<rparr>))
          else
            (if c = 0
             then Some (tValue, s\<lparr>tDataBufferPointer := p + 1, tXScaleCounter := tXScale - 1\<rparr>)
             else Some (tValue, s\<lparr>tXScaleCounter := c - 1\<rparr>)))"

text \<open>Draw trigger state line (aka Digital mode).\<close>

definition triggerStateLine ::
  "constants \<Rightarrow> DisplayControlStruct \<Rightarrow> Color_t \<Rightarrow> int \<Rightarrow> int \<Rightarrow> int
     \<Rightarrow> 'a bulk_state_scheme \<Rightarrow> 'a bulk_state_scheme" where
  "triggerStateLine K D aClearBeforeColor tTriggerValue i tValue s =
    (if showTriggerInfoLine D then
       let w = ScreenBufferWritePointer2 s;
           s1 = (if LOCAL_DISPLAY_EXISTS K \<and> aClearBeforeColor > 0
                 then emit [DrawPixel LocalDisplay i (uint (DisplayBuffer2 s ! w)) aClearBeforeColor] s
                 else s)
       in if tValue > tTriggerValue then
            let s2 = (if LOCAL_DISPLAY_EXISTS K
                      then emit [DrawPixel LocalDisplay i
                                   (tTriggerValue - TRIGGER_HIGH_DISPLAY_OFFSET K)
                                   (COLOR_DATA_TRIGGER K)] s1
                      else s1)
            in s2\<lparr>DisplayBuffer2 := (DisplayBuffer2 s2)
                    [w := word_of_int (tTriggerValue - TRIGGER_HIGH_DISPLAY_OFFSET K)],
                  ScreenBufferWritePointer2 := Suc w\<rparr>
          else s1
     else s)"

text \<open>
  The drawing on the local display, compiled with \<open>LOCAL_DISPLAY_EXISTS\<close>: pixel mode
  or first value of the chart, then line mode.
\<close>

definition localPixel ::
  "constants \<Rightarrow> DisplayControlStruct \<Rightarrow> Color_t \<Rightarrow> Color_t \<Rightarrow> DrawMode_t \<Rightarrow> int \<Rightarrow> int
     \<Rightarrow> 'a bulk_state_scheme \<Rightarrow> 'a bulk_state_scheme" where
  "localPixel K D aColor aClearBeforeColor aDrawMode i tValue s =
    (if aDrawMode \<noteq> DRAW_MODE_REGULAR \<and> tCounterForTimingGridRestore s = TIMING_GRID_WIDTH K
     then emit [DrawPixel LocalDisplay i tValue (COLOR_GRID_LINES K)]
            (s\<lparr>tCounterForTimingGridRestore := 0\<rparr>)
     else
       let s1 = s\<lparr>tCounterForTimingGridRestore := tCounterForTimingGridRestore s + 1\<rparr>;
           s2 = (if aClearBeforeColor > 0 then
                   let tValueClear = readScreen s1 (ScreenBufferReadPointer s1);
                       s3 = (if tValueClear \<noteq> DISPLAYBUFFER_INVISIBLE_VALUE K
                             then emit [DrawPixel LocalDisplay i tValueClear aClearBeforeColor] s1
                             else s1)
                   in if \<not> drawPixelMode D then
                        let s4 = s3\<lparr>ScreenBufferReadPointer := nextEntry (ScreenBufferReadPointer s3)\<rparr>;
                            tValueClear2 = readScreen s4 (ScreenBufferReadPointer s4);
                            s5 = (if tValueClear2 \<noteq> DISPLAYBUFFER_INVISIBLE_VALUE K
                                  then emit [DrawLineFastOneX LocalDisplay 0 tValueClear tValueClear2
                                               aClearBeforeColor] s4
                                  else s4)
                        in s5\<lparr>tLastValueClear := tValueClear2\<rparr>
                      else s3
                 else s1)
       in if tValue \<noteq> DISPLAYBUFFER_INVISIBLE_VALUE K
          then emit [DrawPixel LocalDisplay i tValue aColor] s2
          else s2)"

definition localLine ::
  "constants \<Rightarrow> Color_t \<Rightarrow> Color_t \<Rightarrow> int \<Rightarrow> int
     \<Rightarrow> 'a bulk_state_scheme \<Rightarrow> 'a bulk_state_scheme" where
  "localLine K aColor aClearBeforeColor i tValue s =
    (let s1 = (if aClearBeforeColor > 0 \<and> i \<noteq> DSO_DISPLAY_WIDTH K - 1 then
                 let tValueClear = readScreen s (ScreenBufferReadPointer s);
                     s2 = (if tLastValueClear s \<noteq> DISPLAYBUFFER_INVISIBLE_VALUE K \<and>
                              tValueClear \<noteq> DISPLAYBUFFER_INVISIBLE_VALUE K
                           then emit [DrawLineFastOneX LocalDisplay i (tLastValueClear s) tValueClear
                                        aClearBeforeColor] s
                           else s)
                 in s2\<lparr>tLastValueClear := tValueClear\<rparr>
               else s)
     in if tValue \<noteq> DISPLAYBUFFER_INVISIBLE_VALUE K then
          if tLastValue s1 \<noteq> DISPLAYBUFFER_INVISIBLE_VALUE K then
            if tLastValue s1 = tValue \<and> (tValue = DISPLAY_VALUE_FOR_ZERO K \<or> tValue = 0)
            then emit [DrawLineFastOneX LocalDisplay (i - 1) (tLastValue s1) tValue
                         (COLOR_DATA_RUN_CLIPPING K)] s1
            else emit [DrawLineFastOneX LocalDisplay (i - 1) (tLastValue s1) tValue aColor] s1
          else emit [DrawPixel LocalDisplay i tValue aColor] s1
        else s1)"

definition localDraw ::
  "constants \<Rightarrow> DisplayControlStruct \<Rightarrow> Color_t \<Rightarrow> Color_t \<Rightarrow> DrawMode_t \<Rightarrow> int \<Rightarrow> int
     \<Rightarrow> 'a bulk_state_scheme \<Rightarrow> 'a bulk_state_scheme" where
  "localDraw K D aColor aClearBeforeColor aDrawMode i tValue s =
    (let s1 = (if drawPixelMode D \<or> i = 0
               then localPixel K D aColor aClearBeforeColor aDrawMode i tValue s
               else localLine K aColor aClearBeforeColor i tValue s)
     in s1\<lparr>tLastValue := tValue\<rparr>)"

text \<open>One iteration of the inner \<open>for\<close> loop, with the store into the screen buffer.\<close>

definition bulkColumn ::
  "constants \<Rightarrow> MeasurementControlStruct \<Rightarrow> DisplayControlStruct \<Rightarrow> 16 word list
     \<Rightarrow> Color_t \<Rightarrow> Color_t \<Rightarrow> DrawMode_t \<Rightarrow> int \<Rightarrow> int
     \<Rightarrow> 'a bulk_state_scheme \<Rightarrow> 'a bulk_state_scheme option" where
  "bulkColumn K M D DataBuffer aColor aClearBeforeColor aDrawMode tTriggerValue i s =
    (case fetchValue K M (XScale D) DataBuffer aDrawMode s of
       None \<Rightarrow> None
     | Some (tValue, s1) \<Rightarrow>
         let s2 = triggerStateLine K D aClearBeforeColor tTriggerValue i tValue s1;
             s3 = (if LOCAL_DISPLAY_EXISTS K
                   then localDraw K D aColor aClearBeforeColor aDrawMode i tValue s2
                   else s2);
             s4 = writeScreen (ScreenBufferWritePointer1 s3) tValue s3
         in Some (s4\<lparr>ScreenBufferWritePointer1 := nextEntry (ScreenBufferWritePointer1 s4),
                     ScreenBufferReadPointer := nextEntry (ScreenBufferReadPointer s4)\<rparr>))"

primrec bulkLoop ::
  "constants \<Rightarrow> MeasurementControlStruct \<Rightarrow> DisplayControlStruct \<Rightarrow> 16 word list
     \<Rightarrow> Color_t \<Rightarrow> Color_t \<Rightarrow> DrawMode_t \<Rightarrow> int \<Rightarrow> nat \<Rightarrow> int
     \<Rightarrow> 'a bulk_state_scheme \<Rightarrow> 'a bulk_state_scheme option" where
  "bulkLoop K M D DataBuffer aColor aClearBeforeColor aDrawMode tTriggerValue 0 i s = Some s"
| "bulkLoop K M D DataBuffer aColor aClearBeforeColor aDrawMode tTriggerValue (Suc n) i s =
    (case bulkColumn K M D DataBuffer aColor aClearBeforeColor aDrawMode tTriggerValue i s of
       None \<Rightarrow> None
     | Some s1 \<Rightarrow>
         bulkLoop K M D DataBuffer aColor aClearBeforeColor aDrawMode tTriggerValue n (i + 1) s1)"

text \<open>
  One pass of the \<open>do\<close> loop up to the call of \<open>drawChartByteBuffer\<close>: the counter is
  set again for a scale that is not positive, then the columns \<open>0 .. aLength - 1\<close> are
  worked on.
\<close>

definition bulkPass ::
  "constants \<Rightarrow> MeasurementControlStruct \<Rightarrow> DisplayControlStruct \<Rightarrow> 16 word list
     \<Rightarrow> int \<Rightarrow> Color_t \<Rightarrow> Color_t \<Rightarrow> DrawMode_t \<Rightarrow> int
     \<Rightarrow> 'a bulk_state_scheme \<Rightarrow> 'a bulk_state_scheme option" where
  "bulkPass K M D DataBuffer aLength aColor aClearBeforeColor aDrawMode tTriggerValue s =
    bulkLoop K M D DataBuffer aColor aClearBeforeColor aDrawMode tTriggerValue (nat aLength) 0
      (if XScale D \<le> 0 then s\<lparr>tXScaleCounter := - XScale D\<rparr> else s)"

definition toScreen :: "bulk_state \<Rightarrow> Screen" where
  "toScreen s = \<lparr>DisplayBufferFFT = DisplayBufferFFT s, DisplayBuffer = DisplayBuffer s,
     DisplayBufferMin = DisplayBufferMin s, DisplayBuffer2 = DisplayBuffer2 s, Sink = Sink s\<rparr>"

text \<open>
  \<open>drawDataBuffer\<close>. The body of the \<open>do\<close> loop runs once, and a second time for the
  minimum values when it has just processed the maximum values and \<open>aDrawAlsoMin\<close> is
  set.
\<close>

definition drawDataBuffer ::
  "constants \<Rightarrow> MeasurementControlStruct \<Rightarrow> DisplayControlStruct \<Rightarrow> 16 word list
     \<Rightarrow> int \<Rightarrow> int \<Rightarrow> Color_t \<Rightarrow> Color_t \<Rightarrow> DrawMode_t \<Rightarrow> bool \<Rightarrow> Screen \<Rightarrow> Screen option" where
  "drawDataBuffer K M D DataBuffer aDataBufferPointer aLength aColor aClearBeforeColor aDrawMode
      aDrawAlsoMin scr =
    (let b = (if aDrawMode = DRAW_MODE_CLEAR_OLD_MIN then InDisplayBufferMin else InDisplayBuffer);
         tProcessMaxValues = (aDrawMode \<noteq> DRAW_MODE_CLEAR_OLD_MIN);
         tTriggerValue = getDisplayFrowRawInputValue K M (RawTriggerLevel M);
         s0 = \<lparr>DisplayBufferFFT = DisplayBufferFFT scr, DisplayBuffer = DisplayBuffer scr,
                DisplayBufferMin = DisplayBufferMin scr, DisplayBuffer2 = DisplayBuffer2 scr,
                Sink = Sink scr,
                tDataBufferPointer = aDataBufferPointer,
                ScreenBufferReadPointer = (b, 0), ScreenBufferWritePointer1 = (b, 0),
                ScreenBufferWritePointer2 = 0, tXScaleCounter = XScale D,
                tCounterForTimingGridRestore = 0, tLastValue = 0, tLastValueClear = 0\<rparr>
     in case bulkPass K M D DataBuffer aLength aColor aClearBeforeColor aDrawMode tTriggerValue s0 of
          None \<Rightarrow> None
        | Some s1 \<Rightarrow>
            if tProcessMaxValues then
              let s2 = emit [DrawChartByteBuffer BlueDisplay1 0 0 aColor aClearBeforeColor 0
                               (\<not> aDrawAlsoMin) (take (nat aLength) (DisplayBuffer s1))] s1
              in if aDrawAlsoMin then
                   (case bulkPass K M D DataBuffer aLength aColor aClearBeforeColor aDrawMode
                           tTriggerValue
                           (s2\<lparr>ScreenBufferReadPointer := (InDisplayBufferMin, 0),
                               ScreenBufferWritePointer1 := (InDisplayBufferMin, 0),
                               tDataBufferPointer := aDataBufferPointer + DATABUFFER_MIN_OFFSET K\<rparr>) of
                      None \<Rightarrow> None
                    | Some s3 \<Rightarrow>
                        Some (toScreen (emit [DrawChartByteBuffer BlueDisplay1 0 0 aColor
                                                aClearBeforeColor 1 True
                                                (take (nat aLength) (DisplayBufferMin s3))] s3)))
                 else Some (toScreen s2)
            else Some (toScreen (emit [DrawChartByteBuffer BlueDisplay1 0 0 aColor aClearBeforeColor
                                         1 True (take (nat aLength) (DisplayBufferMin s1))] s1)))"

section \<open>Quantities of the statements\<close>

text \<open>
  The offset-adjusted value of a raw sample and its scaled and shifted value, on the
  mathematical integers, and the conditions under which no step of a conversion leaves
  the range of \<open>int\<close>.
\<close>

definition offsetAdjusted :: "MeasurementControlStruct \<Rightarrow> int \<Rightarrow> int" where
  "offsetAdjusted M aAdcValue =
    (if ChannelIsACMode M then aAdcValue - RawDSOReadingACZero M else aAdcValue)
      - RawOffsetValueForDisplayRange M"

definition scaledValue :: "constants \<Rightarrow> MeasurementControlStruct \<Rightarrow> int \<Rightarrow> int" where
  "scaledValue K M aAdcValue =
    (offsetAdjusted M aAdcValue * scaleFactor M) div 2 ^ DSO_SCALE_FACTOR_SHIFT K"

definition noOverflowToDisplay :: "constants \<Rightarrow> MeasurementControlStruct \<Rightarrow> int \<Rightarrow> bool" where
  "noOverflowToDisplay K M aAdcValue =
    ((ChannelIsACMode M \<longrightarrow> fits32 (aAdcValue - RawDSOReadingACZero M)) \<and>
     fits32 (offsetAdjusted M aAdcValue) \<and>
     (0 \<le> offsetAdjusted M aAdcValue \<longrightarrow> fits32 (offsetAdjusted M aAdcValue * scaleFactor M)) \<and>
     fits32 (DISPLAY_VALUE_FOR_ZERO K))"

definition noOverflowToRaw :: "constants \<Rightarrow> MeasurementControlStruct \<Rightarrow> int \<Rightarrow> bool" where
  "noOverflowToRaw K M aValue =
    (let v1 = DISPLAY_VALUE_FOR_ZERO K - aValue;
         v2 = v1 * 2 ^ DSO_SCALE_FACTOR_SHIFT K;
         v3 = c_div v2 (scaleFactor M);
         v4 = v3 + RawOffsetValueForDisplayRange M
     in fits32 v1 \<and> fits32 v2 \<and> fits32 v3 \<and> fits32 v4 \<and>
        (ChannelIsACMode M \<longrightarrow> fits32 (v4 + RawDSOReadingACZero M)))"

text \<open>
  The quantities of one FFT bar: the row \<open>tDisplayY\<close> computed for the \<open>k\<close>-th bar, the
  row \<open>DisplayYOld\<close> stored for it in \<open>DisplayBufferFFT\<close>, the fill that the comparison
  of the two issues for a bar at column \<open>x\<close>, and the number of bars drawn from column
  \<open>x\<close> on.
\<close>

definition barNew :: "constants \<Rightarrow> (nat \<Rightarrow> 16 word) \<Rightarrow> nat \<Rightarrow> 16 word" where
  "barNew K tScaled k = word_of_int (DSO_DISPLAY_HEIGHT K) - tScaled k"

definition barOld :: "'a Screen_scheme \<Rightarrow> nat \<Rightarrow> 16 word" where
  "barOld s k = ucast (DisplayBufferFFT s ! k)"

definition barFill :: "constants \<Rightarrow> Color_t \<Rightarrow> int \<Rightarrow> 16 word \<Rightarrow> 16 word \<Rightarrow> draw_cmd list" where
  "barFill K aColor x yNew yOld =
    (if yNew < yOld then [FillRect BlueDisplay1 x (uint yNew) (x + 2) (uint yOld) aColor]
     else if yOld < yNew
     then [FillRect BlueDisplay1 x (uint yOld) (x + 2) (uint yNew) (COLOR_BACKGROUND_DSO K)]
     else [])"

definition barCount :: "constants \<Rightarrow> int \<Rightarrow> nat" where
  "barCount K x = nat ((DSO_DISPLAY_WIDTH K - x + 2) div 3)"

text \<open>
  The screen buffer of a track and the other track; the sum of \<open>n\<close> raw samples from
  the data pointer \<open>p\<close> on; the C expression \<open>(a + b) / 2\<close> on two rows; the value of
  column \<open>i\<close> under the 3:2 compression (the mapped sample \<open>3 * (i div 2)\<close> for an even
  column, the average of the rows of the two samples after it for an odd one), and the
  condition that no sample of an averaged pair is mapped to the sentinel, for the pairs
  of the odd columns up to column \<open>i\<close>.
\<close>

definition trackBuffer :: "buffer_id \<Rightarrow> 'a Screen_scheme \<Rightarrow> 8 word list" where
  "trackBuffer b s = (case b of InDisplayBuffer \<Rightarrow> DisplayBuffer s | InDisplayBufferMin \<Rightarrow> DisplayBufferMin s)"

definition otherTrack :: "buffer_id \<Rightarrow> buffer_id" where
  "otherTrack b = (case b of InDisplayBuffer \<Rightarrow> InDisplayBufferMin | InDisplayBufferMin \<Rightarrow> InDisplayBuffer)"

definition rawSum :: "16 word list \<Rightarrow> int \<Rightarrow> nat \<Rightarrow> int" where
  "rawSum DataBuffer p n = (\<Sum>j<n. readRaw DataBuffer (p + int j))"

definition averageOfRows :: "int \<Rightarrow> int \<Rightarrow> int" where
  "averageOfRows a b = c_div (wrap32 (a + b)) 2"

definition pairValue :: "constants \<Rightarrow> MeasurementControlStruct \<Rightarrow> 16 word list \<Rightarrow> int \<Rightarrow> nat \<Rightarrow> int" where
  "pairValue K M DataBuffer p i =
    (if even i then getDisplayFrowRawInputValue K M (readRaw DataBuffer (p + 3 * int (i div 2)))
     else averageOfRows
            (getDisplayFrowRawInputValue K M (readRaw DataBuffer (p + 3 * int (i div 2) + 1)))
            (getDisplayFrowRawInputValue K M (readRaw DataBuffer (p + 3 * int (i div 2) + 2))))"

definition pairsVisible :: "constants \<Rightarrow> MeasurementControlStruct \<Rightarrow> 16 word list \<Rightarrow> int \<Rightarrow> nat \<Rightarrow> bool" where
  "pairsVisible K M DataBuffer p i =
    (\<forall>j\<in>{..i}. odd j \<longrightarrow>
       getDisplayFrowRawInputValue K M (readRaw DataBuffer (p + 3 * int (j div 2) + 1))
         \<noteq> DISPLAYBUFFER_INVISIBLE_VALUE K \<and>
       getDisplayFrowRawInputValue K M (readRaw DataBuffer (p + 3 * int (j div 2) + 2))
         \<noteq> DISPLAYBUFFER_INVISIBLE_VALUE K)"





text \<open>
  The commands that a call adds to the sink, and the end points of a pixel or a line:
  \<open>drawPixel (x, y)\<close> draws at column \<open>x\<close> in row \<open>y\<close>, \<open>drawLineFastOneX (x, y0, y1)\<close> from
  column \<open>x\<close>, row \<open>y0\<close> to column \<open>x + 1\<close>, row \<open>y1\<close> (the calls pass the entries of
  two neighbouring columns); the other commands have none.
  A command draws at a column when one of its end points lies in it.
  A command draws entries when every end point lies in a column that is not negative,
  in a row other than the sentinel, and \<open>entry\<close> holds of the column and the row.
  For an iteration of the incremental loop the entries of a column are the byte of
  \<open>DisplayBuffer\<close> before the iteration and, at the column of the iteration, the newly
  mapped sample; in min max mode also the byte of \<open>DisplayBufferMin\<close> and the mapped
  minimum sample. For \<open>drawDataBuffer\<close> they are the byte of \<open>DisplayBuffer\<close> before the
  call and any value whose low byte is stored there after it, and with \<open>aDrawAlsoMin\<close> the
  same for \<open>DisplayBufferMin\<close>.
\<close>

definition issued :: "sink \<Rightarrow> sink \<Rightarrow> draw_cmd list" where
  "issued before after = drop (length before) after"

definition endPoints :: "draw_cmd \<Rightarrow> (int \<times> int) list" where
  "endPoints c =
    (case c of
       DrawPixel d x y col \<Rightarrow> [(x, y)]
     | DrawLineFastOneX d x y0 y1 col \<Rightarrow> [(x, y0), (x + 1, y1)]
     | _ \<Rightarrow> [])"


definition drawsEntries :: "constants \<Rightarrow> (int \<Rightarrow> int \<Rightarrow> bool) \<Rightarrow> draw_cmd \<Rightarrow> bool" where
  "drawsEntries K entry c =
    list_all (\<lambda>(x, y). 0 \<le> x \<and> y \<noteq> DISPLAYBUFFER_INVISIBLE_VALUE K \<and> entry x y) (endPoints c)"




section \<open>An example configuration\<close>

text \<open>
  A 320 x 240 screen with the zero line in the lowest row, a grid of 32 pixels and a
  shift of 18, and a measurement state on range 3 with an offset of 100. Range 0 has
  the factor \<open>1 << 18\<close>, which maps one raw unit to one row.
\<close>

definition K0 :: constants where
  "K0 = \<lparr> LOCAL_DISPLAY_EXISTS = False, DSO_DISPLAY_WIDTH = 320, DSO_DISPLAY_HEIGHT = 240,
      DISPLAY_VALUE_FOR_ZERO = 239, DISPLAYBUFFER_INVISIBLE_VALUE = 255,
      DATABUFFER_INVISIBLE_RAW_VALUE = 4096, DSO_SCALE_FACTOR_SHIFT = 18,
      TIMING_GRID_WIDTH = 32, TRIGGER_HIGH_DISPLAY_OFFSET = 7, DATABUFFER_MIN_OFFSET = 1000,
      DATABUFFER_DISPLAY_END = 639, DATABUFFER_PRE_TRIGGER_SIZE = 32, FFT_SIZE = 256,
      COLOR_BACKGROUND_DSO = 1, COLOR_GRID_LINES = 2, COLOR_DATA_HOLD = 3,
      COLOR_TRIGGER_LINE = 4, COLOR_MAX_MIN_LINE = 5, COLOR_DATA_TRIGGER = 6,
      COLOR_DATA_RUN_CLIPPING = 7, COLOR_FFT_DATA = 8 \<rparr>"

definition M0 :: MeasurementControlStruct where
  "M0 = \<lparr> ChannelIsACMode = False, RawDSOReadingACZero = 2048,
      RawOffsetValueForDisplayRange = 100, DisplayRangeIndex = 3,
      ScaleFactorRawToDisplayShift18 = (\<lambda>i. if i = 3 then 61680 else 262144),
      RawValueMax = 4000, RawValueMin = 50, RawTriggerLevel = 400,
      TriggerMode = TRIGGER_MODE_AUTOMATIC, isRunning = False, isEffectiveMinMaxMode = False \<rparr>"

text \<open>Range 0 of the example, with the factor \<open>1 << 18\<close>.\<close>

definition M1 :: MeasurementControlStruct where
  "M1 = M0\<lparr>DisplayRangeIndex := 0\<rparr>"

text \<open>A screen of nine columns, that is three FFT bars, with the FFT display on.\<close>

definition Kbars :: constants where
  "Kbars = K0\<lparr>DSO_DISPLAY_WIDTH := 9\<rparr>"

definition Dfft :: DisplayControlStruct where
  "Dfft = \<lparr>XScale = 0, showTriggerInfoLine = False, drawPixelMode = False, EraseColor = 1,
      TriggerLevelDisplayValue = 100, ShowFFT = True\<rparr>"

definition Sbars :: Screen where
  "Sbars = \<lparr>DisplayBufferFFT = [240, 230, 220], DisplayBuffer = [], DisplayBufferMin = [],
     DisplayBuffer2 = [], Sink = []\<rparr>"

text \<open>
  The example while the measurement runs, and two screens of 320 columns: one whose
  graph lies on row 10 in every column, one whose graph touches row 10 in the columns
  0 and 2 only.
\<close>

definition Mrun :: MeasurementControlStruct where
  "Mrun = M0\<lparr>isRunning := True\<rparr>"

definition Sflat :: Screen where
  "Sflat = \<lparr>DisplayBufferFFT = replicate 128 240, DisplayBuffer = replicate 320 10,
     DisplayBufferMin = replicate 320 255, DisplayBuffer2 = replicate 320 255, Sink = []\<rparr>"

definition Swave :: Screen where
  "Swave = Sflat\<lparr>DisplayBuffer := [10, 20, 10] @ replicate 317 30\<rparr>"

text \<open>
  A data buffer of eight samples, a state at the start of a sweep and one with the
  cursor in the last column, and two acquisitions: one that has delivered a single
  sample, and one that has delivered five and ends the trigger phase while the second
  column is drawn.
\<close>

definition Data0 :: "16 word list" where
  "Data0 = [100, 150, 200, 250, 300, 350, 400, 450]"

definition S0 :: dso_state where
  "S0 = \<lparr>DisplayBufferFFT = replicate 128 240, DisplayBuffer = replicate 320 255,
     DisplayBufferMin = replicate 320 255, DisplayBuffer2 = replicate 320 255, Sink = [],
     DataBufferNextDrawPointer = 0, NextDrawXValue = 0\<rparr>"

definition S319 :: dso_state where
  "S319 = S0\<lparr>NextDrawXValue := 319\<rparr>"

definition AcqOne :: "nat \<Rightarrow> AcquisitionSignals" where
  "AcqOne k = \<lparr>DataBufferNextInPointer = 1, TriggerPhaseJustEnded = False,
     DataBufferPreTriggerAreaWrapAround = False\<rparr>"

definition AcqStop :: "nat \<Rightarrow> AcquisitionSignals" where
  "AcqStop k = \<lparr>DataBufferNextInPointer = 5, TriggerPhaseJustEnded = (2 \<le> k),
     DataBufferPreTriggerAreaWrapAround = False\<rparr>"

text \<open>
  Range 0 without offset, the scales 2:1 and 3:2, two data buffers of four samples, two
  of seven samples with the no-data marker as the first sample of the first and of the
  second averaged pair, and a screen of two columns.
\<close>

definition M2 :: MeasurementControlStruct where
  "M2 = M1\<lparr>RawOffsetValueForDisplayRange := 0\<rparr>"

definition Dcomp2 :: DisplayControlStruct where
  "Dcomp2 = Dfft\<lparr>XScale := - 2\<rparr>"

definition Dcomp32 :: DisplayControlStruct where
  "Dcomp32 = Dfft\<lparr>XScale := - 1\<rparr>"

definition DataC :: "16 word list" where
  "DataC = [10, 20, 30, 41]"

definition DataP :: "16 word list" where
  "DataP = [100, 104, 105, 100]"

definition DataQ :: "16 word list" where
  "DataQ = [150, 4096, 200, 250, 300, 350, 400]"

definition DataR :: "16 word list" where
  "DataR = [100, 104, 105, 100, 4096, 200, 250]"

definition Stiny :: Screen where
  "Stiny = \<lparr>DisplayBufferFFT = [], DisplayBuffer = [255, 255], DisplayBufferMin = [255, 255],
     DisplayBuffer2 = [255, 255], Sink = []\<rparr>"

text \<open>
  No FFT bars; the example with the minimum track four samples after the maximum
  track, with the code for the local display, and in min max mode; a state whose
  minimum track is all sentinel under a visible main track, and one whose minimum track
  is visible; a data buffer with the no-data marker as its second sample, an acquisition
  that has delivered four samples, and a screen of four columns.
\<close>

definition NoBars :: "nat \<Rightarrow> 16 word" where
  "NoBars k = 0"








definition Sfour :: Screen where
  "Sfour = \<lparr>DisplayBufferFFT = [], DisplayBuffer = [255, 255, 255, 255],
     DisplayBufferMin = [255, 255, 255, 255], DisplayBuffer2 = [255, 255, 255, 255], Sink = []\<rparr>"






section \<open>Arithmetic lemmas\<close>

lemma wrap32_id: "fits32 x \<Longrightarrow> wrap32 x = x"
  by (simp add: wrap32_def fits32_def)

lemma c_div_nonneg: "0 \<le> a \<Longrightarrow> 0 < b \<Longrightarrow> c_div a b = a div b"
  by (simp add: c_div_def)

lemma fits32_between: "fits32 lo \<Longrightarrow> fits32 hi \<Longrightarrow> lo \<le> x \<Longrightarrow> x \<le> hi \<Longrightarrow> fits32 x"
  by (simp add: fits32_def)

lemma scale_roundtrip:
  fixes a f P :: int
  assumes "0 \<le> a" "0 < f" "0 < P"
  defines "q \<equiv> (a * f) div P"
  shows "(q * P) div f \<le> a" and "(a - (q * P) div f) * f < P + f"
proof -
  have qP: "q * P \<le> a * f"
  proof -
    have "a * f = q * P + (a * f) mod P" unfolding q_def by simp
    moreover have "0 \<le> (a * f) mod P" using assms(3) by simp
    ultimately show ?thesis by linarith
  qed
  show "(q * P) div f \<le> a"
  proof -
    have "(q * P) div f \<le> (a * f) div f" using qP assms(2) by (rule zdiv_mono1)
    then show ?thesis using assms(2) by simp
  qed
  have up: "a * f < q * P + P"
  proof -
    have "a * f = q * P + (a * f) mod P" unfolding q_def by simp
    moreover have "(a * f) mod P < P" using assms(3) by simp
    ultimately show ?thesis by linarith
  qed
  have lo: "q * P < (q * P) div f * f + f"
  proof -
    have "q * P = (q * P) div f * f + (q * P) mod f" by simp
    moreover have "(q * P) mod f < f" using assms(2) by simp
    ultimately show ?thesis by linarith
  qed
  show "(a - (q * P) div f) * f < P + f"
    using up lo by (simp add: algebra_simps)
qed

section \<open>The raw to display conversion\<close>

lemma getDisplay_unfold:
  assumes "aAdcValue \<noteq> DATABUFFER_INVISIBLE_RAW_VALUE K"
    and "noOverflowToDisplay K M aAdcValue"
  shows "getDisplayFrowRawInputValue K M aAdcValue =
     (if offsetAdjusted M aAdcValue < 0 then DISPLAY_VALUE_FOR_ZERO K
      else if scaledValue K M aAdcValue > DISPLAY_VALUE_FOR_ZERO K then 0
      else wrap32 (DISPLAY_VALUE_FOR_ZERO K - scaledValue K M aAdcValue))"
proof -
  let ?a1 = "if ChannelIsACMode M then aAdcValue - RawDSOReadingACZero M else aAdcValue"
  have w1: "(if ChannelIsACMode M then wrap32 (aAdcValue - RawDSOReadingACZero M) else aAdcValue)
      = ?a1"
    using assms(2) by (simp add: noOverflowToDisplay_def wrap32_id)
  have w2: "wrap32 (?a1 - RawOffsetValueForDisplayRange M) = offsetAdjusted M aAdcValue"
    using assms(2) by (simp add: noOverflowToDisplay_def offsetAdjusted_def wrap32_id)
  have w3: "0 \<le> offsetAdjusted M aAdcValue \<Longrightarrow>
      wrap32 (offsetAdjusted M aAdcValue * scaleFactor M) = offsetAdjusted M aAdcValue * scaleFactor M"
    using assms(2) by (simp add: noOverflowToDisplay_def wrap32_id)
  show ?thesis
  proof (cases "offsetAdjusted M aAdcValue < 0")
    case True
    then show ?thesis
      using assms(1) by (simp only: getDisplayFrowRawInputValue_def w1 w2 Let_def if_False if_True)
  next
    case False
    then have "0 \<le> offsetAdjusted M aAdcValue" by simp
    from w3[OF this] False show ?thesis
      using assms(1)
      by (simp only: getDisplayFrowRawInputValue_def w1 w2 Let_def if_False scaledValue_def)
  qed
qed

lemma getDisplay_cases:
  assumes "aAdcValue \<noteq> DATABUFFER_INVISIBLE_RAW_VALUE K"
    and "noOverflowToDisplay K M aAdcValue"
    and "0 \<le> DISPLAY_VALUE_FOR_ZERO K"
    and "0 \<le> scaleFactor M"
  shows "getDisplayFrowRawInputValue K M aAdcValue =
           (if offsetAdjusted M aAdcValue < 0 then DISPLAY_VALUE_FOR_ZERO K
            else if scaledValue K M aAdcValue > DISPLAY_VALUE_FOR_ZERO K then 0
            else DISPLAY_VALUE_FOR_ZERO K - scaledValue K M aAdcValue)"
    and "0 \<le> offsetAdjusted M aAdcValue \<Longrightarrow> 0 \<le> scaledValue K M aAdcValue"
proof -
  show nn: "0 \<le> offsetAdjusted M aAdcValue \<Longrightarrow> 0 \<le> scaledValue K M aAdcValue"
    using assms(4) by (simp add: scaledValue_def pos_imp_zdiv_nonneg_iff)
  have fz: "fits32 0" "fits32 (DISPLAY_VALUE_FOR_ZERO K)"
    using assms(2) by (simp_all add: noOverflowToDisplay_def fits32_def)
  have w: "0 \<le> offsetAdjusted M aAdcValue \<Longrightarrow>
        scaledValue K M aAdcValue \<le> DISPLAY_VALUE_FOR_ZERO K \<Longrightarrow>
        wrap32 (DISPLAY_VALUE_FOR_ZERO K - scaledValue K M aAdcValue) =
          DISPLAY_VALUE_FOR_ZERO K - scaledValue K M aAdcValue"
    using nn by (intro wrap32_id fits32_between[OF fz]) simp_all
  show "getDisplayFrowRawInputValue K M aAdcValue =
           (if offsetAdjusted M aAdcValue < 0 then DISPLAY_VALUE_FOR_ZERO K
            else if scaledValue K M aAdcValue > DISPLAY_VALUE_FOR_ZERO K then 0
            else DISPLAY_VALUE_FOR_ZERO K - scaledValue K M aAdcValue)"
    unfolding getDisplay_unfold[OF assms(1,2)] using w by auto
qed

text \<open>
  The clamps within the range of \<open>int\<close>. A raw sample other than the no-data marker,
  whose conversion does not overflow (\<open>noOverflowToDisplay\<close>: the two subtractions and,
  for an offset-adjusted value that is not negative, its product with the scale
  factor), is mapped to a row between 0 and \<open>DISPLAY_VALUE_FOR_ZERO\<close>: to
  \<open>DISPLAY_VALUE_FOR_ZERO\<close> when its offset-adjusted value is negative, to 0 when the
  scaled and shifted value exceeds \<open>DISPLAY_VALUE_FOR_ZERO\<close>, and to
  \<open>DISPLAY_VALUE_FOR_ZERO\<close> minus the scaled value otherwise. The constant and the scale
  factor are not negative.
\<close>

theorem getDisplayFrowRawInputValue_clamped:
  assumes "aAdcValue \<noteq> DATABUFFER_INVISIBLE_RAW_VALUE K"
    and "noOverflowToDisplay K M aAdcValue"
    and "0 \<le> DISPLAY_VALUE_FOR_ZERO K"
    and "0 \<le> scaleFactor M"
  shows "0 \<le> getDisplayFrowRawInputValue K M aAdcValue \<and>
         getDisplayFrowRawInputValue K M aAdcValue \<le> DISPLAY_VALUE_FOR_ZERO K \<and>
         getDisplayFrowRawInputValue K M aAdcValue =
           (if offsetAdjusted M aAdcValue < 0 then DISPLAY_VALUE_FOR_ZERO K
            else if scaledValue K M aAdcValue > DISPLAY_VALUE_FOR_ZERO K then 0
            else DISPLAY_VALUE_FOR_ZERO K - scaledValue K M aAdcValue)"
  using getDisplay_cases[OF assms] assms(3) by auto

text \<open>
  The scenario of the specification: range offset 100, factor \<open>1 << 18\<close>, zero row 200,
  AC mode off; the raw sample 150 is mapped to row 150.
\<close>

theorem getDisplayFrowRawInputValue_clamped_witness:
  "0 \<le> getDisplayFrowRawInputValue (K0\<lparr>DISPLAY_VALUE_FOR_ZERO := 200\<rparr>) M1 150 \<and>
   getDisplayFrowRawInputValue (K0\<lparr>DISPLAY_VALUE_FOR_ZERO := 200\<rparr>) M1 150 \<le> 200 \<and>
   getDisplayFrowRawInputValue (K0\<lparr>DISPLAY_VALUE_FOR_ZERO := 200\<rparr>) M1 150 = 150"
proof -
  let ?K = "K0\<lparr>DISPLAY_VALUE_FOR_ZERO := 200\<rparr>"
  have h1: "(150::int) \<noteq> DATABUFFER_INVISIBLE_RAW_VALUE ?K" by (simp add: K0_def)
  have h2: "noOverflowToDisplay ?K M1 150"
    by (simp add: noOverflowToDisplay_def offsetAdjusted_def scaleFactor_def fits32_def
        K0_def M0_def M1_def)
  have h3: "0 \<le> DISPLAY_VALUE_FOR_ZERO ?K" by (simp add: K0_def)
  have h4: "0 \<le> scaleFactor M1" by (simp add: scaleFactor_def M0_def M1_def)
  have v: "offsetAdjusted M1 150 = 50" "scaledValue ?K M1 150 = 50"
    by (simp_all add: scaledValue_def offsetAdjusted_def scaleFactor_def K0_def M0_def M1_def)
  have z: "DISPLAY_VALUE_FOR_ZERO ?K = 200" by simp
  show ?thesis
    using getDisplayFrowRawInputValue_clamped[OF h1 h2 h3 h4] unfolding v z by simp
qed

text \<open>
  C1. The function is documented to return a display value from 0 to
  \<open>DISPLAY_VALUE_FOR_ZERO\<close>, or 0 if the raw value is too high. Beyond the range above the
  multiplication \<^verbatim>\<open>aAdcValue *= ScaleFactorRawToDisplayShift18[..]\<close> wraps around and
  the clip of step 4 is missed. On range 3 of the example (factor 61680, offset 100)
  the sample 34917, a value of the \<open>uint16_t\<close> data buffer, has the scaled value 8192,
  far above the zero row 239, so that row 0 is due; the product 2147512560 exceeds
  \<open>2^31 - 1\<close>, the wrapped product is negative, it passes the test against
  \<open>DISPLAY_VALUE_FOR_ZERO\<close>, and the function returns row 8431.
\<close>

theorem getDisplayFrowRawInputValue_overflow:
  "34917 \<noteq> DATABUFFER_INVISIBLE_RAW_VALUE K0 \<and>
   0 \<le> offsetAdjusted M0 34917 \<and>
   offsetAdjusted M0 34917 * scaleFactor M0 = 2147512560 \<and>
   scaledValue K0 M0 34917 = 8192 \<and>
   DISPLAY_VALUE_FOR_ZERO K0 = 239 \<and>
   getDisplayFrowRawInputValue K0 M0 34917 = 8431"
  by code_simp

section \<open>The display to raw conversion\<close>

lemma getInputRaw_unfold:
  assumes "noOverflowToRaw K M aValue" and "scaleFactor M \<noteq> 0"
  shows "getInputRawFromDisplayValue K M aValue =
     Some (c_div ((DISPLAY_VALUE_FOR_ZERO K - aValue) * 2 ^ DSO_SCALE_FACTOR_SHIFT K) (scaleFactor M)
           + RawOffsetValueForDisplayRange M
           + (if ChannelIsACMode M then RawDSOReadingACZero M else 0))"
  using assms
  by (simp add: getInputRawFromDisplayValue_def noOverflowToRaw_def Let_def wrap32_id)

text \<open>
  C2. For a raw sample \<open>r\<close> that reaches neither clamp (its offset-adjusted value is not
  negative and its scaled value does not exceed \<open>DISPLAY_VALUE_FOR_ZERO\<close>), in any
  measurement state with a positive scale factor, \<open>getInputRawFromDisplayValue\<close> of
  \<open>getDisplayFrowRawInputValue r\<close> returns a raw value \<open>r'\<close> that is not above \<open>r\<close> and
  less than one display row, \<open>2 ^ DSO_SCALE_FACTOR_SHIFT / factor\<close> raw units, plus one
  unit of integer rounding below it: \<open>r - r'\<close> is at most that quotient rounded up.
\<close>

theorem raw_display_roundtrip:
  assumes raw: "r \<noteq> DATABUFFER_INVISIBLE_RAW_VALUE K"
    and lo: "0 \<le> offsetAdjusted M r"
    and hi: "scaledValue K M r \<le> DISPLAY_VALUE_FOR_ZERO K"
    and f: "0 < scaleFactor M"
    and ovD: "noOverflowToDisplay K M r"
    and ovR: "noOverflowToRaw K M (getDisplayFrowRawInputValue K M r)"
  shows "\<exists>r'. getInputRawFromDisplayValue K M (getDisplayFrowRawInputValue K M r) = Some r' \<and>
           r' \<le> r \<and>
           (r - r') * scaleFactor M < 2 ^ DSO_SCALE_FACTOR_SHIFT K + scaleFactor M \<and>
           r - r' \<le> (2 ^ DSO_SCALE_FACTOR_SHIFT K + scaleFactor M - 1) div scaleFactor M"
proof -
  let ?a = "offsetAdjusted M r"
  let ?P = "(2::int) ^ DSO_SCALE_FACTOR_SHIFT K"
  let ?q = "scaledValue K M r"
  let ?b = "(?q * ?P) div scaleFactor M"
  let ?r' = "?b + RawOffsetValueForDisplayRange M
            + (if ChannelIsACMode M then RawDSOReadingACZero M else 0)"
  have f0: "0 \<le> scaleFactor M" using f by simp
  have q0: "0 \<le> ?q"
    using lo f by (simp add: scaledValue_def pos_imp_zdiv_nonneg_iff)
  have zero: "0 \<le> DISPLAY_VALUE_FOR_ZERO K" using q0 hi by simp
  have d: "getDisplayFrowRawInputValue K M r = DISPLAY_VALUE_FOR_ZERO K - ?q"
    using getDisplay_cases(1)[OF raw ovD zero f0] lo hi by simp
  have cd: "c_div (?q * ?P) (scaleFactor M) = ?b"
    using q0 f by (simp add: c_div_nonneg)
  have bk: "getInputRawFromDisplayValue K M (DISPLAY_VALUE_FOR_ZERO K - ?q) = Some ?r'"
    using getInputRaw_unfold[OF ovR[unfolded d]] f cd by simp
  have rt: "?b \<le> ?a" "(?a - ?b) * scaleFactor M < ?P + scaleFactor M"
    using scale_roundtrip[OF lo f, of ?P] by (simp_all add: scaledValue_def)
  have diff: "r - ?r' = ?a - ?b" by (simp add: offsetAdjusted_def)
  have le: "?r' \<le> r" using rt(1) diff by linarith
  have fx: "(r - ?r') * scaleFactor M < ?P + scaleFactor M" unfolding diff by (rule rt(2))
  have "(r - ?r') * scaleFactor M \<le> ?P + scaleFactor M - 1" using fx by simp
  then have "((r - ?r') * scaleFactor M) div scaleFactor M
      \<le> (?P + scaleFactor M - 1) div scaleFactor M"
    using f by (rule zdiv_mono1)
  then have cl: "r - ?r' \<le> (?P + scaleFactor M - 1) div scaleFactor M" using f by simp
  show ?thesis unfolding d bk using le fx cl by blast
qed

text \<open>
  On range 3 of the example (factor 61680, one row is 4.25 raw units) the raw sample
  117 is shown in row 236 and read back as 112.
\<close>

theorem raw_display_roundtrip_witness:
  "getDisplayFrowRawInputValue K0 M0 117 = 236 \<and>
   getInputRawFromDisplayValue K0 M0 236 = Some 112 \<and>
   (\<exists>r'. getInputRawFromDisplayValue K0 M0 (getDisplayFrowRawInputValue K0 M0 117) = Some r' \<and>
      r' \<le> 117 \<and>
      (117 - r') * scaleFactor M0 < 2 ^ DSO_SCALE_FACTOR_SHIFT K0 + scaleFactor M0 \<and>
      117 - r' \<le> (2 ^ DSO_SCALE_FACTOR_SHIFT K0 + scaleFactor M0 - 1) div scaleFactor M0)"
proof -
  have d: "getDisplayFrowRawInputValue K0 M0 117 = 236" by code_simp
  have b: "getInputRawFromDisplayValue K0 M0 236 = Some 112" by code_simp
  have h1: "(117::int) \<noteq> DATABUFFER_INVISIBLE_RAW_VALUE K0" by code_simp
  have h2: "0 \<le> offsetAdjusted M0 117" by code_simp
  have h3: "scaledValue K0 M0 117 \<le> DISPLAY_VALUE_FOR_ZERO K0" by code_simp
  have h4: "0 < scaleFactor M0" by code_simp
  have h5: "noOverflowToDisplay K0 M0 117" by code_simp
  have h6: "noOverflowToRaw K0 M0 (getDisplayFrowRawInputValue K0 M0 117)" by code_simp
  show ?thesis
    using d b raw_display_roundtrip[OF h1 h2 h3 h4 h5 h6] by blast
qed

section \<open>Min and max lines\<close>

text \<open>
  C10. \<open>drawMinMaxLines\<close> issues the maximum line unless \<open>RawValueMax\<close> is mapped to
  row 0, then the minimum line unless \<open>RawValueMin\<close> is mapped to
  \<open>DISPLAY_VALUE_FOR_ZERO\<close>, and nothing else: a clipped extremum produces no draw call.
\<close>

theorem drawMinMaxLines_clipped:
  "drawMinMaxLines K M out =
     out
     @ (if getDisplayFrowRawInputValue K M (RawValueMax M) = 0 then []
        else [DrawLineRel BlueDisplay1 0 (getDisplayFrowRawInputValue K M (RawValueMax M))
                (DSO_DISPLAY_WIDTH K) 0 (COLOR_MAX_MIN_LINE K)])
     @ (if getDisplayFrowRawInputValue K M (RawValueMin M) = DISPLAY_VALUE_FOR_ZERO K then []
        else [DrawLineRel BlueDisplay1 0 (getDisplayFrowRawInputValue K M (RawValueMin M))
                (DSO_DISPLAY_WIDTH K) 0 (COLOR_MAX_MIN_LINE K)])"
  by (simp add: drawMinMaxLines_def Let_def)

text \<open>
  In the example the maximum 4000 is clipped to row 0 and the minimum 50 lies below the
  range offset: no line is drawn.
\<close>

theorem drawMinMaxLines_clipped_witness:
  "getDisplayFrowRawInputValue K0 M0 (RawValueMax M0) = 0 \<and>
   getDisplayFrowRawInputValue K0 M0 (RawValueMin M0) = DISPLAY_VALUE_FOR_ZERO K0 \<and>
   drawMinMaxLines K0 M0 [] = []"
proof -
  have mx: "getDisplayFrowRawInputValue K0 M0 (RawValueMax M0) = 0" by code_simp
  have mn: "getDisplayFrowRawInputValue K0 M0 (RawValueMin M0) = DISPLAY_VALUE_FOR_ZERO K0"
    by code_simp
  from drawMinMaxLines_clipped[of K0 M0 "[]"] have "drawMinMaxLines K0 M0 [] = []"
    by (simp only: mx mn refl if_True append_Nil)
  then show ?thesis using mx mn by (intro conjI)
qed

section \<open>FFT bars\<close>

lemma barCount_step:
  assumes "x < DSO_DISPLAY_WIDTH K"
  shows "barCount K x = Suc (barCount K (x + 3))"
proof -
  let ?a = "DSO_DISPLAY_WIDTH K - (x + 3) + 2"
  have a: "0 \<le> ?a" using assms by simp
  have "DSO_DISPLAY_WIDTH K - x + 2 = ?a + 3" by simp
  then have "(DSO_DISPLAY_WIDTH K - x + 2) div 3 = ?a div 3 + 1" by simp
  moreover have "0 \<le> ?a div 3" using a by simp
  ultimately show ?thesis unfolding barCount_def by (simp add: nat_add_distrib)
qed 

lemma barCount_done: "\<not> x < DSO_DISPLAY_WIDTH K \<Longrightarrow> barCount K x = 0"
  unfolding barCount_def by simp

lemma map_upt_Suc_shift: "map f [0..<Suc n] = f 0 # map (\<lambda>j. f (Suc j)) [0..<n]"
  by (simp only: upt_conv_Cons[OF zero_less_Suc] list.map map_Suc_upt[symmetric] map_map o_def)

lemma sink_emit: "Sink (emit cmds s) = Sink s @ cmds"
  by (simp add: emit_def)

lemma fft_emit: "DisplayBufferFFT (emit cmds s) = DisplayBufferFFT s"
  by (simp add: emit_def)

lemma draw128FFTValuesLoop_sink:
  "Sink (draw128FFTValuesLoop K aColor tScaled x k s) =
     Sink s @ concat (map (\<lambda>j. barFill K aColor (x + 3 * int j) (barNew K tScaled (k + j)) (barOld s (k + j)))
                        [0..<barCount K x])"
proof (induction K aColor tScaled x k s rule: draw128FFTValuesLoop.induct)
  case (1 K aColor tScaled x k s)
  show ?case
  proof (cases "x < DSO_DISPLAY_WIDTH K")
    case False
    then show ?thesis
      by (subst draw128FFTValuesLoop.simps) (simp add: barCount_done)
  next
    case True
    define y where "y = barNew K tScaled k"
    define old where "old = barOld s k"
    define s1 where "s1 = emit (barFill K aColor x y old) s"
    define s2 where "s2 = s1\<lparr>DisplayBufferFFT := (DisplayBufferFFT s1)[k := ucast y]\<rparr>"
    have step: "draw128FFTValuesLoop K aColor tScaled x k s =
                draw128FFTValuesLoop K aColor tScaled (x + 3) (Suc k) s2"
      using True
      by (subst draw128FFTValuesLoop.simps)
         (auto simp add: Let_def s2_def s1_def y_def old_def barNew_def barOld_def barFill_def emit_def)
    have ih: "Sink (draw128FFTValuesLoop K aColor tScaled (x + 3) (Suc k) s2) =
        Sink s2 @ concat (map (\<lambda>j. barFill K aColor (x + 3 + 3 * int j)
                                    (barNew K tScaled (Suc k + j)) (barOld s2 (Suc k + j)))
                           [0..<barCount K (x + 3)])"
      using "1.IH"[OF True, of "barNew K tScaled k" "barOld s k" s1 s2]
      unfolding s2_def s1_def y_def old_def barNew_def barOld_def barFill_def emit_def
      by (auto simp add: Let_def)
    have olds: "barOld s2 (Suc k + j) = barOld s (Suc k + j)" for j
      by (simp add: barOld_def s2_def s1_def emit_def)
    have snk: "Sink s2 = Sink s @ barFill K aColor x y old"
      by (simp add: s2_def s1_def emit_def)
    show ?thesis
      unfolding step ih olds snk barCount_step[OF True] map_upt_Suc_shift
      by (simp add: y_def old_def algebra_simps)
  qed
qed


lemma barFill_cases:
  "c \<in> set (barFill K aColor x yNew yOld) \<Longrightarrow>
     yNew \<noteq> yOld \<and> (\<exists>y0 y1 col. c = FillRect BlueDisplay1 x y0 (x + 2) y1 col)"
  by (auto simp add: barFill_def split: if_splits)

text \<open>
  C7. The fills that \<open>draw128FFTValuesFast\<close> issues are, bar by bar from the left, the
  fill of the bar at column \<open>x = 3 * k\<close>: none when the new row equals the row stored in
  \<open>DisplayBufferFFT\<close>, the rows between the new and the old one in the data colour when
  the bar grows, and the rows between the old and the new one in the background colour
  when it shrinks. Every fill spans the columns \<open>x\<close> to \<open>x + 2\<close> of a bar whose row has
  changed.
\<close>

theorem draw128FFTValuesFast_bars:
  "\<exists>cmds. Sink (draw128FFTValuesFast K D aColor tScaled s) = Sink s @ cmds \<and>
     cmds = (if ShowFFT D
             then concat (map (\<lambda>k. barFill K aColor (3 * int k) (barNew K tScaled k) (barOld s k))
                            [0..<barCount K 0])
             else []) \<and>
     (\<forall>c \<in> set cmds. \<exists>k y0 y1 col. k < barCount K 0 \<and> barNew K tScaled k \<noteq> barOld s k \<and>
         c = FillRect BlueDisplay1 (3 * int k) y0 (3 * int k + 2) y1 col)"
proof (cases "ShowFFT D")
  case False
  then show ?thesis by (simp add: draw128FFTValuesFast_def)
next
  case True
  let ?cmds = "concat (map (\<lambda>k. barFill K aColor (3 * int k) (barNew K tScaled k) (barOld s k))
                            [0..<barCount K 0])"
  have eq: "Sink (draw128FFTValuesFast K D aColor tScaled s) = Sink s @ ?cmds"
    using True draw128FFTValuesLoop_sink[of K aColor tScaled 0 0 s]
    by (simp add: draw128FFTValuesFast_def)
  have "\<exists>k y0 y1 col. k < barCount K 0 \<and> barNew K tScaled k \<noteq> barOld s k \<and>
         c = FillRect BlueDisplay1 (3 * int k) y0 (3 * int k + 2) y1 col"
    if "c \<in> set ?cmds" for c
  proof -
    from that obtain k where k: "k < barCount K 0"
      and c: "c \<in> set (barFill K aColor (3 * int k) (barNew K tScaled k) (barOld s k))"
      by auto
    from barFill_cases[OF c] k show ?thesis by blast
  qed
  then show ?thesis using eq True by auto
qed

text \<open>
  Three bars stored at rows 240, 230 and 220 and drawn anew at row 230: the first
  grows, the second is left alone, the third shrinks.
\<close>

theorem draw128FFTValuesFast_bars_witness:
  "Sink (draw128FFTValuesFast Kbars Dfft 8 (\<lambda>k. 10) Sbars) =
     [FillRect BlueDisplay1 0 230 2 240 8, FillRect BlueDisplay1 6 220 8 230 1]"
proof -
  obtain cmds where s: "Sink (draw128FFTValuesFast Kbars Dfft 8 (\<lambda>k. 10) Sbars) = Sink Sbars @ cmds"
    and c: "cmds = (if ShowFFT Dfft
             then concat (map (\<lambda>k. barFill Kbars 8 (3 * int k) (barNew Kbars (\<lambda>k. 10) k) (barOld Sbars k))
                            [0..<barCount Kbars 0])
             else [])"
    using draw128FFTValuesFast_bars[of Kbars Dfft 8 "\<lambda>k. 10" Sbars] by blast
  have "Sink Sbars @ (if ShowFFT Dfft
             then concat (map (\<lambda>k. barFill Kbars 8 (3 * int k) (barNew Kbars (\<lambda>k. 10) k) (barOld Sbars k))
                            [0..<barCount Kbars 0])
             else []) = [FillRect BlueDisplay1 0 230 2 240 8, FillRect BlueDisplay1 6 220 8 230 1]"
    by code_simp
  then show ?thesis using s c by simp
qed

section \<open>Trigger line\<close>

lemma restoreGrid_set:
  assumes "0 < TIMING_GRID_WIDTH K"
  shows "\<exists>gs. restoreGrid K y x out = out @ gs \<and>
           set gs = {DrawPixel BlueDisplay1 x' y (COLOR_GRID_LINES K) | x'.
                      x \<le> x' \<and> x' < DSO_DISPLAY_WIDTH K - 1 \<and> (x' - x) mod TIMING_GRID_WIDTH K = 0}"
  using assms
proof (induction K y x out rule: restoreGrid.induct)
  case (1 K y x out)
  let ?G = "TIMING_GRID_WIDTH K"
  let ?W = "DSO_DISPLAY_WIDTH K"
  let ?p = "\<lambda>x'. DrawPixel BlueDisplay1 x' y (COLOR_GRID_LINES K)"
  show ?case
  proof (cases "x < ?W - 1")
    case False
    then have "restoreGrid K y x out = out" by (subst restoreGrid.simps) simp
    moreover have "{?p x' | x'. x \<le> x' \<and> x' < ?W - 1 \<and> (x' - x) mod ?G = 0} = {}"
      using False by auto
    ultimately show ?thesis by simp
  next
    case True
    from "1.IH"[OF _ "1.prems"] True "1.prems" obtain gs where
      gs: "restoreGrid K y (x + ?G) (out @ [?p x]) = (out @ [?p x]) @ gs"
      and sg: "set gs = {?p x' | x'. x + ?G \<le> x' \<and> x' < ?W - 1 \<and> (x' - (x + ?G)) mod ?G = 0}"
      by blast
    have step: "restoreGrid K y x out = restoreGrid K y (x + ?G) (out @ [?p x])"
      using True "1.prems" by (subst restoreGrid.simps) simp
    have idx: "(x \<le> x' \<and> x' < ?W - 1 \<and> (x' - x) mod ?G = 0) =
               (x' = x \<or> (x + ?G \<le> x' \<and> x' < ?W - 1 \<and> (x' - (x + ?G)) mod ?G = 0))" for x'
    proof -
      have "x' - (x + ?G) = (x' - x) - ?G" by simp
      then have m: "(x' - (x + ?G)) mod ?G = (x' - x) mod ?G"
        by (simp only: minus_mod_self2)
      have "x + ?G \<le> x'" if "x < x'" "(x' - x) mod ?G = 0"
      proof -
        have "?G dvd (x' - x)" using that(2) by (simp add: dvd_eq_mod_eq_0)
        then have "?G \<le> x' - x" using that(1) by (intro zdvd_imp_le) simp_all
        then show ?thesis by simp
      qed
      then show ?thesis using True "1.prems" unfolding m by auto
    qed
    have "set ([?p x] @ gs) = insert (?p x) (set gs)" by simp
    also have "\<dots> = {?p x' | x'. x' = x \<or>
        (x + ?G \<le> x' \<and> x' < ?W - 1 \<and> (x' - (x + ?G)) mod ?G = 0)}"
      unfolding sg by auto
    also have "\<dots> = {?p x' | x'. x \<le> x' \<and> x' < ?W - 1 \<and> (x' - x) mod ?G = 0}"
      by (simp only: idx)
    finally have "set ([?p x] @ gs) =
        {?p x' | x'. x \<le> x' \<and> x' < ?W - 1 \<and> (x' - x) mod ?G = 0}" .
    then show ?thesis unfolding step gs by (intro exI[of _ "[?p x] @ gs"]) simp
  qed
qed

lemma restoreGraph_eq:
  "restoreGraph K buf y n i out =
     out @ map (\<lambda>j. DrawPixel BlueDisplay1 (int j) y (COLOR_DATA_HOLD K))
              (filter (\<lambda>j. uint (buf ! j) = y) [i..<i + n])"
proof (induction n arbitrary: i out)
  case 0
  show ?case by simp
next
  case (Suc n)
  have u: "[i..<Suc (i + n)] = i # [Suc i..<Suc (i + n)]" by (simp add: upt_conv_Cons)
  show ?case by (simp add: Suc.IH Let_def u del: upt_Suc)
qed

text \<open>
  C9, as the code has it. \<open>drawTriggerLine\<close> draws the line exactly when
  \<open>TriggerLevelDisplayValue\<close> is not 0 and the trigger mode is not off.
  \<open>clearTriggerLine\<close> overdraws the old line in the background colour, then redraws the
  grid pixel of every grid column left of the last display column (the columns \<open>x\<close>
  below \<open>DSO_DISPLAY_WIDTH - 1\<close> with \<open>x + 1\<close> a multiple of \<open>TIMING_GRID_WIDTH\<close>), and
  then, only when the measurement is not running, the pixel of every column whose byte
  in \<open>DisplayBuffer\<close> equals the old row.
\<close>

theorem clearTriggerLine_restores:
  assumes "0 < TIMING_GRID_WIDTH K"
  shows "drawTriggerLine K M D out =
           (if TriggerLevelDisplayValue D \<noteq> 0 \<and> TriggerMode M \<noteq> TRIGGER_MODE_OFF
            then out @ [DrawLineRel BlueDisplay1 0 (TriggerLevelDisplayValue D)
                          (DSO_DISPLAY_WIDTH K) 0 (COLOR_TRIGGER_LINE K)]
            else out) \<and>
         (\<exists>s' gs. clearTriggerLine K M v s = Some s' \<and>
            Sink s' = Sink s
              @ [DrawLineRel BlueDisplay1 0 (uint v) (DSO_DISPLAY_WIDTH K) 0 (COLOR_BACKGROUND_DSO K)]
              @ gs
              @ (if isRunning M then []
                 else map (\<lambda>i. DrawPixel BlueDisplay1 (int i) (uint v) (COLOR_DATA_HOLD K))
                        (filter (\<lambda>i. uint (DisplayBuffer s ! i) = uint v)
                           [0..<nat (DSO_DISPLAY_WIDTH K)])) \<and>
            set gs = {DrawPixel BlueDisplay1 x (uint v) (COLOR_GRID_LINES K) | x.
                        TIMING_GRID_WIDTH K - 1 \<le> x \<and> x < DSO_DISPLAY_WIDTH K - 1 \<and>
                        (x + 1) mod TIMING_GRID_WIDTH K = 0})"
proof -
  let ?G = "TIMING_GRID_WIDTH K"
  let ?out1 = "Sink s @ [DrawLineRel BlueDisplay1 0 (uint v) (DSO_DISPLAY_WIDTH K) 0
                           (COLOR_BACKGROUND_DSO K)]"
  obtain gs where gs: "restoreGrid K (uint v) (?G - 1) ?out1 = ?out1 @ gs"
    and sg: "set gs = {DrawPixel BlueDisplay1 x' (uint v) (COLOR_GRID_LINES K) | x'.
                      ?G - 1 \<le> x' \<and> x' < DSO_DISPLAY_WIDTH K - 1 \<and> (x' - (?G - 1)) mod ?G = 0}"
    using restoreGrid_set[OF assms, of "uint v" "?G - 1" ?out1] by blast
  have m: "(x' - (?G - 1)) mod ?G = (x' + 1) mod ?G" for x'
  proof -
    have "x' - (?G - 1) = (x' + 1) - ?G" by simp
    then show ?thesis by (simp only: minus_mod_self2)
  qed
  have "\<exists>s'. clearTriggerLine K M v s = Some s' \<and>
            Sink s' = ?out1 @ gs
              @ (if isRunning M then []
                 else map (\<lambda>i. DrawPixel BlueDisplay1 (int i) (uint v) (COLOR_DATA_HOLD K))
                        (filter (\<lambda>i. uint (DisplayBuffer s ! i) = uint v)
                           [0..<nat (DSO_DISPLAY_WIDTH K)]))"
    using assms by (simp add: clearTriggerLine_def Let_def gs restoreGraph_eq)
  then show ?thesis using sg unfolding m by (auto simp add: drawTriggerLine_def)
qed

text \<open>
  Stopped, with a graph that touches the old line in the columns 0 and 2: the nine grid
  pixels and the two graph pixels are redrawn.
\<close>

theorem clearTriggerLine_restores_witness:
  "0 < TIMING_GRID_WIDTH K0 \<and>
   map_option Sink (clearTriggerLine K0 M0 10 Swave) =
     Some ([DrawLineRel BlueDisplay1 0 10 320 0 1] @
           map (\<lambda>x. DrawPixel BlueDisplay1 x 10 2) [31, 63, 95, 127, 159, 191, 223, 255, 287] @
           [DrawPixel BlueDisplay1 0 10 3, DrawPixel BlueDisplay1 2 10 3]) \<and>
   (\<exists>s' gs. clearTriggerLine K0 M0 10 Swave = Some s' \<and>
      Sink s' = Sink Swave
        @ [DrawLineRel BlueDisplay1 0 (uint (10 :: 8 word)) (DSO_DISPLAY_WIDTH K0) 0
             (COLOR_BACKGROUND_DSO K0)]
        @ gs
        @ (if isRunning M0 then []
           else map (\<lambda>i. DrawPixel BlueDisplay1 (int i) (uint (10 :: 8 word)) (COLOR_DATA_HOLD K0))
                  (filter (\<lambda>i. uint (DisplayBuffer Swave ! i) = uint (10 :: 8 word))
                     [0..<nat (DSO_DISPLAY_WIDTH K0)])) \<and>
      set gs = {DrawPixel BlueDisplay1 x (uint (10 :: 8 word)) (COLOR_GRID_LINES K0) | x.
                  TIMING_GRID_WIDTH K0 - 1 \<le> x \<and> x < DSO_DISPLAY_WIDTH K0 - 1 \<and>
                  (x + 1) mod TIMING_GRID_WIDTH K0 = 0})"
proof -
  have h: "0 < TIMING_GRID_WIDTH K0" by code_simp
  have e: "map_option Sink (clearTriggerLine K0 M0 10 Swave) =
     Some ([DrawLineRel BlueDisplay1 0 10 320 0 1] @
           map (\<lambda>x. DrawPixel BlueDisplay1 x 10 2) [31, 63, 95, 127, 159, 191, 223, 255, 287] @
           [DrawPixel BlueDisplay1 0 10 3, DrawPixel BlueDisplay1 2 10 3])"
    by code_simp
  show ?thesis
    using h e clearTriggerLine_restores[OF h, of M0 Dfft "[]" 10 Swave, THEN conjunct2]
    by (intro conjI)
qed

text \<open>
  Running, with a graph that lies on the old line in every column: the erased line and
  nine grid pixels are all that is drawn. No graph pixel is redrawn, and neither is the
  grid pixel of column 319.
\<close>

theorem clearTriggerLine_running_counterexample:
  "isRunning Mrun \<and> uint (DisplayBuffer Sflat ! 0) = uint (10 :: 8 word) \<and>
   map_option Sink (clearTriggerLine K0 Mrun 10 Sflat) =
     Some [DrawLineRel BlueDisplay1 0 10 320 0 1,
           DrawPixel BlueDisplay1 31 10 2, DrawPixel BlueDisplay1 63 10 2,
           DrawPixel BlueDisplay1 95 10 2, DrawPixel BlueDisplay1 127 10 2,
           DrawPixel BlueDisplay1 159 10 2, DrawPixel BlueDisplay1 191 10 2,
           DrawPixel BlueDisplay1 223 10 2, DrawPixel BlueDisplay1 255 10 2,
           DrawPixel BlueDisplay1 287 10 2]"
  by code_simp

section \<open>Drawing while acquiring: cursor and loop condition\<close>

lemma emit_more [simp]: "Screen.more (emit cmds s) = Screen.more s"
  by (simp add: emit_def)

lemma x_emit [simp]: "NextDrawXValue (emit cmds s) = NextDrawXValue s"
  by (simp add: emit_def)

lemma x_fftLoop [simp]:
  "NextDrawXValue (draw128FFTValuesLoop K aColor tScaled x k s) = NextDrawXValue s"
proof (induction K aColor tScaled x k s rule: draw128FFTValuesLoop.induct)
  case (1 K aColor tScaled x k s)
  show ?case
  proof (cases "x < DSO_DISPLAY_WIDTH K")
    case False
    then show ?thesis by (subst draw128FFTValuesLoop.simps) simp
  next
    case True
    show ?thesis
      by (subst draw128FFTValuesLoop.simps) (simp add: True Let_def "1.IH"[OF True refl refl refl refl])
  qed
qed

lemma x_fft [simp]:
  "NextDrawXValue (draw128FFTValuesFast K D aColor tScaled s) = NextDrawXValue s"
  by (simp add: draw128FFTValuesFast_def)

lemma x_clearOld [simp]: "NextDrawXValue (clearOld K M D x s) = NextDrawXValue s"
  by (simp add: clearOld_def Let_def)

lemma x_getNewValue [simp]:
  "NextDrawXValue (snd (snd (getNewValue K M DataBuffer p x s))) = NextDrawXValue s"
  by (simp add: getNewValue_def Let_def)

lemma x_drawNew [simp]: "NextDrawXValue (drawNew K M D c x v vm s) = NextDrawXValue s"
  by (simp add: drawNew_def Let_def)

lemma x_drawColumn:
  "NextDrawXValue (drawColumn K M D DataBuffer aDrawColor tScaled s) =
     displayX K (NextDrawXValue s) + 1"
  by (simp add: drawColumn_def Let_def split_beta)

lemma x_step:
  "NextDrawXValue (drawRemainingStep K M D DataBuffer aDrawColor tScaled s) =
     displayX K (NextDrawXValue s) + 1"
  by (simp add: drawRemainingStep_def x_drawColumn)

lemma p_step:
  "DataBufferNextDrawPointer (drawRemainingStep K M D DataBuffer aDrawColor tScaled s) =
     Suc (DataBufferNextDrawPointer s)"
  by (simp add: drawRemainingStep_def)

lemma p_funpow:
  "DataBufferNextDrawPointer ((drawRemainingStep K M D DataBuffer aDrawColor tScaled ^^ n) s) =
     DataBufferNextDrawPointer s + n"
  by (induction n) (simp_all add: p_step)

lemma drawRemainingLoop_funpow:
  "\<exists>n. drawRemainingLoop K M D DataBuffer acq aDrawColor tScaled k s =
          (drawRemainingStep K M D DataBuffer aDrawColor tScaled ^^ n) s \<and>
        (\<forall>j<n. loopCondition K (acq (k + j)) (DataBufferNextDrawPointer s + j)) \<and>
        \<not> loopCondition K (acq (k + n)) (DataBufferNextDrawPointer s + n)"
proof (induction K M D DataBuffer acq aDrawColor tScaled k s rule: drawRemainingLoop.induct)
  case (1 K M D DataBuffer acq aDrawColor tScaled k s)
  let ?step = "drawRemainingStep K M D DataBuffer aDrawColor tScaled"
  show ?case
  proof (cases "loopCondition K (acq k) (DataBufferNextDrawPointer s)")
    case False
    then have "drawRemainingLoop K M D DataBuffer acq aDrawColor tScaled k s = (?step ^^ 0) s"
      by (subst drawRemainingLoop.simps) simp
    then show ?thesis using False by (intro exI[of _ 0]) simp
  next
    case True
    from "1.IH"[OF True] obtain n where
      r: "drawRemainingLoop K M D DataBuffer acq aDrawColor tScaled (Suc k) (?step s) =
            (?step ^^ n) (?step s)"
      and c: "\<forall>j<n. loopCondition K (acq (Suc k + j)) (DataBufferNextDrawPointer (?step s) + j)"
      and e: "\<not> loopCondition K (acq (Suc k + n)) (DataBufferNextDrawPointer (?step s) + n)"
      by blast
    have r': "drawRemainingLoop K M D DataBuffer acq aDrawColor tScaled k s = (?step ^^ Suc n) s"
      using True r by (subst drawRemainingLoop.simps) (simp add: funpow_swap1)
    have c': "loopCondition K (acq (k + j)) (DataBufferNextDrawPointer s + j)" if "j < Suc n" for j
    proof (cases j)
      case 0
      then show ?thesis using True by simp
    next
      case (Suc i)
      then have "i < n" using that by simp
      with c have "loopCondition K (acq (Suc k + i)) (DataBufferNextDrawPointer (?step s) + i)"
        by blast
      then show ?thesis by (simp add: Suc p_step)
    qed
    have e': "\<not> loopCondition K (acq (k + Suc n)) (DataBufferNextDrawPointer s + Suc n)"
      using e by (simp add: p_step)
    show ?thesis using r' c' e' by blast
  qed
qed


lemma x_funpow_Suc:
  "NextDrawXValue ((drawRemainingStep K M D DataBuffer aDrawColor tScaled ^^ Suc n) s) =
     displayX K (NextDrawXValue ((drawRemainingStep K M D DataBuffer aDrawColor tScaled ^^ n) s)) + 1"
  by (simp add: x_step)

lemma cursor_closed_form:
  assumes W: "0 < DSO_DISPLAY_WIDTH K"
    and c: "1 \<le> NextDrawXValue s" "NextDrawXValue s \<le> DSO_DISPLAY_WIDTH K"
  shows "NextDrawXValue ((drawRemainingStep K M D DataBuffer aDrawColor tScaled ^^ n) s) =
           (NextDrawXValue s - 1 + int n) mod DSO_DISPLAY_WIDTH K + 1"
proof (induction n)
  case 0
  have "(NextDrawXValue s - 1) mod DSO_DISPLAY_WIDTH K = NextDrawXValue s - 1"
    using c by (intro mod_pos_pos_trivial) simp_all
  then show ?case by simp
next
  case (Suc n)
  let ?W = "DSO_DISPLAY_WIDTH K"
  let ?m = "(NextDrawXValue s - 1 + int n) mod ?W"
  have m: "0 \<le> ?m" "?m < ?W" using W by simp_all
  have nx: "(NextDrawXValue s - 1 + int (Suc n)) mod ?W = (?m + 1) mod ?W"
    by (simp add: mod_add_left_eq add.assoc)
  show ?case
  proof (cases "?m + 1 = ?W")
    case True
    then have "(?m + 1) mod ?W = 0" by simp
    then show ?thesis
      unfolding x_funpow_Suc Suc.IH nx using True by (simp add: displayX_def)
  next
    case False
    then have lt: "?m + 1 < ?W" using m by simp
    then have "(?m + 1) mod ?W = ?m + 1" using m by (intro mod_pos_pos_trivial) simp_all
    then show ?thesis
      unfolding x_funpow_Suc Suc.IH nx using lt by (simp add: displayX_def)
  qed
qed

lemma wrap_iteration:
  fixes W c :: int
  assumes "0 < W" "1 \<le> c" "c \<le> W" "int j < W"
  shows "(W \<le> (c - 1 + int j) mod W + 1) = (j = nat (W - c))"
proof (cases "c - 1 + int j < W")
  case True
  then have "(c - 1 + int j) mod W = c - 1 + int j"
    using assms by (intro mod_pos_pos_trivial) simp_all
  then show ?thesis using assms True by auto
next
  case False
  have "(c - 1 + int j) mod W = (c - 1 + int j - W) mod W" by (simp only: minus_mod_self2)
  also have "\<dots> = c - 1 + int j - W"
    using assms False by (intro mod_pos_pos_trivial) simp_all
  finally show ?thesis using assms False by auto
qed

text \<open>
  C5, as the code has it. With a positive display width and a stored cursor
  \<open>NextDrawXValue\<close> between 0 and the width, the column that an iteration works on is
  the cursor, or 0 when the cursor has reached the width, and lies in
  \<open>[0, DSO_DISPLAY_WIDTH)\<close>. The iteration stores this column plus one: the stored cursor
  lies in \<open>[1, DSO_DISPLAY_WIDTH]\<close> afterwards and does reach the width, the wrap to 0
  being applied by the next iteration. After an iteration at cursor
  \<open>DSO_DISPLAY_WIDTH - 1\<close> the stored cursor is the width and the next iteration works on
  column 0. Of \<open>DSO_DISPLAY_WIDTH\<close> iterations in a row that start from a stored cursor
  of at least 1, exactly one finds the cursor at the width and wraps, and the stored
  cursor is back at its start value after them. A call consists of such iterations.
\<close>

theorem incremental_cursor_wraps:
  assumes W: "0 < DSO_DISPLAY_WIDTH K"
    and c: "0 \<le> NextDrawXValue s" "NextDrawXValue s \<le> DSO_DISPLAY_WIDTH K"
  shows "0 \<le> displayX K (NextDrawXValue s) \<and> displayX K (NextDrawXValue s) < DSO_DISPLAY_WIDTH K \<and>
         NextDrawXValue (drawRemainingStep K M D DataBuffer aDrawColor tScaled s) =
           displayX K (NextDrawXValue s) + 1 \<and>
         (NextDrawXValue s = DSO_DISPLAY_WIDTH K - 1 \<longrightarrow>
            NextDrawXValue (drawRemainingStep K M D DataBuffer aDrawColor tScaled s) =
              DSO_DISPLAY_WIDTH K \<and>
            displayX K (NextDrawXValue (drawRemainingStep K M D DataBuffer aDrawColor tScaled s)) = 0) \<and>
         (1 \<le> NextDrawXValue s \<longrightarrow>
            NextDrawXValue ((drawRemainingStep K M D DataBuffer aDrawColor tScaled
                               ^^ nat (DSO_DISPLAY_WIDTH K)) s) = NextDrawXValue s \<and>
            {j. j < nat (DSO_DISPLAY_WIDTH K) \<and>
                DSO_DISPLAY_WIDTH K \<le>
                  NextDrawXValue ((drawRemainingStep K M D DataBuffer aDrawColor tScaled ^^ j) s)} =
              {nat (DSO_DISPLAY_WIDTH K - NextDrawXValue s)}) \<and>
         (\<exists>n. drawRemainingDataBufferValues K M D DataBuffer acq aDrawColor tScaled s =
                (drawRemainingStep K M D DataBuffer aDrawColor tScaled ^^ n) s)"
proof -
  let ?W = "DSO_DISPLAY_WIDTH K"
  let ?step = "drawRemainingStep K M D DataBuffer aDrawColor tScaled"
  have A: "0 \<le> displayX K (NextDrawXValue s) \<and> displayX K (NextDrawXValue s) < ?W"
    using W c by (simp add: displayX_def)
  have B: "NextDrawXValue (?step s) = displayX K (NextDrawXValue s) + 1" by (rule x_step)
  have C: "NextDrawXValue s = ?W - 1 \<longrightarrow>
             NextDrawXValue (?step s) = ?W \<and> displayX K (NextDrawXValue (?step s)) = 0"
    unfolding B by (simp add: displayX_def)
  have D: "NextDrawXValue ((?step ^^ nat ?W) s) = NextDrawXValue s \<and>
           {j. j < nat ?W \<and> ?W \<le> NextDrawXValue ((?step ^^ j) s)} = {nat (?W - NextDrawXValue s)}"
    if c1: "1 \<le> NextDrawXValue s"
  proof
    have "(NextDrawXValue s - 1 + int (nat ?W)) mod ?W = (NextDrawXValue s - 1) mod ?W"
      using W by simp
    also have "\<dots> = NextDrawXValue s - 1" using c1 c by (intro mod_pos_pos_trivial) simp_all
    finally show "NextDrawXValue ((?step ^^ nat ?W) s) = NextDrawXValue s"
      unfolding cursor_closed_form[OF W c1 c(2)] by simp
    have "(j < nat ?W \<and> ?W \<le> NextDrawXValue ((?step ^^ j) s)) = (j = nat (?W - NextDrawXValue s))"
      for j
    proof (cases "int j < ?W")
      case True
      then have "j < nat ?W" by simp
      then show ?thesis
        unfolding cursor_closed_form[OF W c1 c(2)] using wrap_iteration[OF W c1 c(2) True] by simp
    next
      case False
      then show ?thesis using c1 c W by auto
    qed
    then show "{j. j < nat ?W \<and> ?W \<le> NextDrawXValue ((?step ^^ j) s)} =
                 {nat (?W - NextDrawXValue s)}"
      by simp
  qed
  have E: "\<exists>n. drawRemainingDataBufferValues K M D DataBuffer acq aDrawColor tScaled s =
                (?step ^^ n) s"
    using drawRemainingLoop_funpow[of K M D DataBuffer acq aDrawColor tScaled 0 s]
    unfolding drawRemainingDataBufferValues_def by blast
  show ?thesis using A B C D E by (intro conjI impI) blast+
qed

text \<open>
  C8. A call of \<open>drawRemainingDataBufferValues\<close> runs the loop body some number \<open>n\<close> of
  times and nothing else. Before each of these iterations the draw pointer was
  strictly below the next-in pointer and not above \<open>DATABUFFER_DISPLAY_END\<close>, and neither
  flag was set; the iteration \<open>j\<close> works on the sample under \<open>DataBufferNextDrawPointer + j\<close>.
  The loop stops at the first test that finds the draw pointer at or beyond the next-in
  pointer, or beyond the display end, or one of the two flags set.
\<close>

theorem drawRemaining_stops:
  "\<exists>n. drawRemainingDataBufferValues K M D DataBuffer acq aDrawColor tScaled s =
         (drawRemainingStep K M D DataBuffer aDrawColor tScaled ^^ n) s \<and>
       DataBufferNextDrawPointer
         (drawRemainingDataBufferValues K M D DataBuffer acq aDrawColor tScaled s) =
         DataBufferNextDrawPointer s + n \<and>
       (\<forall>j<n. DataBufferNextDrawPointer
                 ((drawRemainingStep K M D DataBuffer aDrawColor tScaled ^^ j) s) =
                 DataBufferNextDrawPointer s + j \<and>
               DataBufferNextDrawPointer s + j < DataBufferNextInPointer (acq j) \<and>
               DataBufferNextDrawPointer s + j \<le> DATABUFFER_DISPLAY_END K \<and>
               \<not> TriggerPhaseJustEnded (acq j) \<and>
               \<not> DataBufferPreTriggerAreaWrapAround (acq j)) \<and>
       (DataBufferNextInPointer (acq n) \<le> DataBufferNextDrawPointer s + n \<or>
        DATABUFFER_DISPLAY_END K < DataBufferNextDrawPointer s + n \<or>
        TriggerPhaseJustEnded (acq n) \<or> DataBufferPreTriggerAreaWrapAround (acq n))"
proof -
  let ?step = "drawRemainingStep K M D DataBuffer aDrawColor tScaled"
  obtain n where r: "drawRemainingDataBufferValues K M D DataBuffer acq aDrawColor tScaled s =
         (?step ^^ n) s"
    and c: "\<forall>j<n. loopCondition K (acq j) (DataBufferNextDrawPointer s + j)"
    and e: "\<not> loopCondition K (acq n) (DataBufferNextDrawPointer s + n)"
    using drawRemainingLoop_funpow[of K M D DataBuffer acq aDrawColor tScaled 0 s]
    unfolding drawRemainingDataBufferValues_def by auto
  have p: "DataBufferNextDrawPointer
         (drawRemainingDataBufferValues K M D DataBuffer acq aDrawColor tScaled s) =
         DataBufferNextDrawPointer s + n"
    unfolding r by (rule p_funpow)
  show ?thesis
    using r p c e unfolding loopCondition_def by (intro exI[of _ n]) (auto simp add: p_funpow)
qed


text \<open>
  One sample drawn at cursor 319 on the 320 columns of the example: the stored cursor
  is 320 afterwards.
\<close>

theorem incremental_cursor_counterexample:
  "NextDrawXValue S319 = DSO_DISPLAY_WIDTH K0 - 1 \<and>
   NextDrawXValue (drawRemainingDataBufferValues K0 M0 Dfft Data0 AcqOne 9 NoBars S319) =
     DSO_DISPLAY_WIDTH K0"
  by code_simp

text \<open>The same state: the next sample goes to column 0, and the wrap is the second of 320 iterations.\<close>

theorem incremental_cursor_wraps_witness:
  "0 < DSO_DISPLAY_WIDTH K0 \<and> 0 \<le> NextDrawXValue S319 \<and> NextDrawXValue S319 \<le> DSO_DISPLAY_WIDTH K0 \<and>
   NextDrawXValue (drawRemainingStep K0 M0 Dfft Data0 9 NoBars S319) = 320 \<and>
   displayX K0 (NextDrawXValue (drawRemainingStep K0 M0 Dfft Data0 9 NoBars S319)) = 0 \<and>
   NextDrawXValue ((drawRemainingStep K0 M0 Dfft Data0 9 NoBars ^^ 320) S319) = 319 \<and>
   {j. j < 320 \<and> 320 \<le> NextDrawXValue ((drawRemainingStep K0 M0 Dfft Data0 9 NoBars ^^ j) S319)} = {1}"
proof -
  have w: "DSO_DISPLAY_WIDTH K0 = 320" by code_simp
  have x: "NextDrawXValue S319 = 319" by code_simp
  have h1: "0 < DSO_DISPLAY_WIDTH K0" unfolding w by simp
  have h2: "0 \<le> NextDrawXValue S319" unfolding x by simp
  have h3: "NextDrawXValue S319 \<le> DSO_DISPLAY_WIDTH K0" unfolding w x by simp
  show ?thesis
    using h1 h2 h3 incremental_cursor_wraps[OF h1 h2 h3, of M0 Dfft Data0 9 NoBars AcqOne]
    unfolding w x by (simp add: displayX_def w)
qed

text \<open>
  Five samples are in the buffer and \<open>TriggerPhaseJustEnded\<close> is set during the second
  iteration: the call draws two columns and stops.
\<close>

theorem drawRemaining_stops_witness:
  "DataBufferNextDrawPointer (drawRemainingDataBufferValues K0 M0 Dfft Data0 AcqStop 9 NoBars S0) = 2 \<and>
   TriggerPhaseJustEnded (AcqStop 2) \<and>
   drawRemainingDataBufferValues K0 M0 Dfft Data0 AcqStop 9 NoBars S0 =
     (drawRemainingStep K0 M0 Dfft Data0 9 NoBars ^^ 2) S0"
proof -
  have e: "DataBufferNextDrawPointer
      (drawRemainingDataBufferValues K0 M0 Dfft Data0 AcqStop 9 NoBars S0) = 2"
    by code_simp
  have p: "DataBufferNextDrawPointer S0 = 0" by code_simp
  have t: "TriggerPhaseJustEnded (AcqStop 2)" by code_simp
  obtain n where r: "drawRemainingDataBufferValues K0 M0 Dfft Data0 AcqStop 9 NoBars S0 =
         (drawRemainingStep K0 M0 Dfft Data0 9 NoBars ^^ n) S0"
    and q: "DataBufferNextDrawPointer
         (drawRemainingDataBufferValues K0 M0 Dfft Data0 AcqStop 9 NoBars S0) =
         DataBufferNextDrawPointer S0 + n"
    using drawRemaining_stops[of K0 M0 Dfft Data0 AcqStop 9 NoBars S0] by blast
  have "n = 2" using q unfolding e p by simp
  then show ?thesis using e t r by simp
qed

section \<open>Drawing a whole data buffer: the screen buffers\<close>

lemma trackBuffer_emit [simp]: "trackBuffer b (emit cmds s) = trackBuffer b s"
  by (simp add: trackBuffer_def emit_def split: buffer_id.split)

lemma trackBuffer_writeScreen:
  "trackBuffer b (writeScreen p v s) =
     (if fst p = b then (trackBuffer b s)[snd p := word_of_int v] else trackBuffer b s)"
  by (cases b; cases "fst p") (simp_all add: trackBuffer_def writeScreen_def)

lemma writeScreen_frame [simp]:
  "tDataBufferPointer (writeScreen p v s) = tDataBufferPointer s"
  "tXScaleCounter (writeScreen p v s) = tXScaleCounter s"
  "ScreenBufferWritePointer1 (writeScreen p v s) = ScreenBufferWritePointer1 s"
  "Sink (writeScreen p v s) = Sink s"
  by (simp_all add: writeScreen_def split: buffer_id.split)

text \<open>What the trigger state line and the local drawing leave alone.\<close>

lemma triggerStateLine_frame:
  "trackBuffer b (triggerStateLine K D aClearBeforeColor tTriggerValue i tValue s) = trackBuffer b s"
  "tDataBufferPointer (triggerStateLine K D aClearBeforeColor tTriggerValue i tValue s) = tDataBufferPointer s"
  "tXScaleCounter (triggerStateLine K D aClearBeforeColor tTriggerValue i tValue s) = tXScaleCounter s"
  "ScreenBufferWritePointer1 (triggerStateLine K D aClearBeforeColor tTriggerValue i tValue s) =
     ScreenBufferWritePointer1 s"
  by (simp_all add: triggerStateLine_def Let_def emit_def trackBuffer_def split: buffer_id.split)

lemma localPixel_frame:
  "trackBuffer b (localPixel K D aColor aClearBeforeColor aDrawMode i tValue s) = trackBuffer b s"
  "tDataBufferPointer (localPixel K D aColor aClearBeforeColor aDrawMode i tValue s) = tDataBufferPointer s"
  "tXScaleCounter (localPixel K D aColor aClearBeforeColor aDrawMode i tValue s) = tXScaleCounter s"
  "ScreenBufferWritePointer1 (localPixel K D aColor aClearBeforeColor aDrawMode i tValue s) =
     ScreenBufferWritePointer1 s"
  by (simp_all add: localPixel_def Let_def emit_def trackBuffer_def split: buffer_id.split)

lemma localLine_frame:
  "trackBuffer b (localLine K aColor aClearBeforeColor i tValue s) = trackBuffer b s"
  "tDataBufferPointer (localLine K aColor aClearBeforeColor i tValue s) = tDataBufferPointer s"
  "tXScaleCounter (localLine K aColor aClearBeforeColor i tValue s) = tXScaleCounter s"
  "ScreenBufferWritePointer1 (localLine K aColor aClearBeforeColor i tValue s) =
     ScreenBufferWritePointer1 s"
  by (simp_all add: localLine_def Let_def emit_def trackBuffer_def split: buffer_id.split)

lemma trackBuffer_locals [simp]:
  "trackBuffer b (s\<lparr>tLastValue := v\<rparr>) = trackBuffer b s"
  "trackBuffer b (s\<lparr>tDataBufferPointer := p\<rparr>) = trackBuffer b s"
  "trackBuffer b (s\<lparr>tXScaleCounter := c\<rparr>) = trackBuffer b s"
  "trackBuffer b (s\<lparr>ScreenBufferWritePointer1 := w\<rparr>) = trackBuffer b s"
  "trackBuffer b (s\<lparr>ScreenBufferReadPointer := r\<rparr>) = trackBuffer b s"
  by (simp_all add: trackBuffer_def split: buffer_id.split)

lemma localDraw_frame:
  "trackBuffer b (localDraw K D aColor aClearBeforeColor aDrawMode i tValue s) = trackBuffer b s"
  "tDataBufferPointer (localDraw K D aColor aClearBeforeColor aDrawMode i tValue s) = tDataBufferPointer s"
  "tXScaleCounter (localDraw K D aColor aClearBeforeColor aDrawMode i tValue s) = tXScaleCounter s"
  "ScreenBufferWritePointer1 (localDraw K D aColor aClearBeforeColor aDrawMode i tValue s) =
     ScreenBufferWritePointer1 s"
  by (simp_all add: localDraw_def Let_def localPixel_frame localLine_frame)

text \<open>One column in the regular draw mode, in terms of the value that is fetched.\<close>

lemma bulkColumn_store:
  assumes "fetchValue K M (XScale D) DataBuffer aDrawMode s = Some (v, s1)"
    and "trackBuffer b s1 = trackBuffer b s"
    and "ScreenBufferWritePointer1 s1 = ScreenBufferWritePointer1 s"
  shows "\<exists>s'. bulkColumn K M D DataBuffer aColor aClearBeforeColor aDrawMode tTriggerValue i s = Some s' \<and>
           trackBuffer b s' =
             (if fst (ScreenBufferWritePointer1 s) = b
              then (trackBuffer b s)[snd (ScreenBufferWritePointer1 s) := word_of_int v]
              else trackBuffer b s) \<and>
           ScreenBufferWritePointer1 s' = nextEntry (ScreenBufferWritePointer1 s) \<and>
           tDataBufferPointer s' = tDataBufferPointer s1 \<and>
           tXScaleCounter s' = tXScaleCounter s1"
  using assms
  by (simp add: bulkColumn_def Let_def trackBuffer_writeScreen triggerStateLine_frame localDraw_frame)

lemma otherTrack_neq [simp]: "otherTrack b \<noteq> b" "b \<noteq> otherTrack b"
  by (cases b; simp add: otherTrack_def)+

text \<open>
  The columns of one pass, when \<open>I k\<close> describes the data pointer and the counter
  before the \<open>k\<close>-th column and the value fetched for it is \<open>val k\<close> where \<open>good k\<close>
  holds.
\<close>

lemma bulkLoop_values_if:
  fixes val :: "nat \<Rightarrow> int" and I :: "nat \<Rightarrow> int \<Rightarrow> int \<Rightarrow> bool" and good :: "nat \<Rightarrow> bool"
    and s :: "'a bulk_state_scheme"
  assumes fetch: "\<And>k (t :: 'a bulk_state_scheme). k < n \<Longrightarrow> I k (tDataBufferPointer t) (tXScaleCounter t) \<Longrightarrow>
             \<exists>v t1. fetchValue K M (XScale D) DataBuffer aDrawMode t = Some (v, t1) \<and>
                  (\<forall>b. trackBuffer b t1 = trackBuffer b t) \<and>
                  ScreenBufferWritePointer1 t1 = ScreenBufferWritePointer1 t \<and>
                  I (Suc k) (tDataBufferPointer t1) (tXScaleCounter t1) \<and>
                  (good k \<longrightarrow> v = val k)"
    and init: "I 0 (tDataBufferPointer s) (tXScaleCounter s)"
    and wp: "ScreenBufferWritePointer1 s = (b, w)"
  shows "\<exists>s'. bulkLoop K M D DataBuffer aColor aClearBeforeColor aDrawMode tTriggerValue n i s = Some s' \<and>
          length (trackBuffer b s') = length (trackBuffer b s) \<and>
          (\<forall>k. k < n \<longrightarrow> good k \<longrightarrow> w + k < length (trackBuffer b s) \<longrightarrow>
                trackBuffer b s' ! (w + k) = word_of_int (val k)) \<and>
          (\<forall>x. x < w \<longrightarrow> trackBuffer b s' ! x = trackBuffer b s ! x) \<and>
          trackBuffer (otherTrack b) s' = trackBuffer (otherTrack b) s"
  using fetch init wp
proof (induction n arbitrary: s i w val I good)
  case 0
  show ?case by simp
next
  case (Suc n)
  from Suc.prems(1)[OF _ Suc.prems(2)] obtain v s1 where
    f: "fetchValue K M (XScale D) DataBuffer aDrawMode s = Some (v, s1)"
    and tb: "\<And>b. trackBuffer b s1 = trackBuffer b s"
    and w1: "ScreenBufferWritePointer1 s1 = ScreenBufferWritePointer1 s"
    and i1: "I (Suc 0) (tDataBufferPointer s1) (tXScaleCounter s1)"
    and g0: "good 0 \<Longrightarrow> v = val 0"
    by auto
  from bulkColumn_store[where b = b and aColor = aColor and aClearBeforeColor = aClearBeforeColor
        and tTriggerValue = tTriggerValue and i = i, OF f tb w1]
    bulkColumn_store[where b = "otherTrack b" and aColor = aColor
        and aClearBeforeColor = aClearBeforeColor and tTriggerValue = tTriggerValue and i = i,
        OF f tb w1]
  obtain s2 where
    c: "bulkColumn K M D DataBuffer aColor aClearBeforeColor aDrawMode tTriggerValue i s = Some s2"
    and b2: "trackBuffer b s2 = (trackBuffer b s)[w := word_of_int v]"
    and o2: "trackBuffer (otherTrack b) s2 = trackBuffer (otherTrack b) s"
    and w2: "ScreenBufferWritePointer1 s2 = (b, Suc w)"
    and p2: "tDataBufferPointer s2 = tDataBufferPointer s1" "tXScaleCounter s2 = tXScaleCounter s1"
    using Suc.prems(3) by (auto simp add: nextEntry_def)
  have fetch': "\<exists>v t1. fetchValue K M (XScale D) DataBuffer aDrawMode t = Some (v, t1) \<and>
                  (\<forall>b. trackBuffer b t1 = trackBuffer b t) \<and>
                  ScreenBufferWritePointer1 t1 = ScreenBufferWritePointer1 t \<and>
                  I (Suc (Suc k)) (tDataBufferPointer t1) (tXScaleCounter t1) \<and>
                  (good (Suc k) \<longrightarrow> v = val (Suc k))"
    if "k < n" "I (Suc k) (tDataBufferPointer t) (tXScaleCounter t)" for k and t :: "'a bulk_state_scheme"
    using Suc.prems(1)[of "Suc k" t] that by simp
  have init': "I (Suc 0) (tDataBufferPointer s2) (tXScaleCounter s2)" using i1 p2 by simp
  from Suc.IH[of "\<lambda>k. I (Suc k)" "\<lambda>k. good (Suc k)" "\<lambda>k. val (Suc k)" s2 "Suc w" "i + 1",
      OF fetch' init' w2]
  obtain s' where
    l: "bulkLoop K M D DataBuffer aColor aClearBeforeColor aDrawMode tTriggerValue n (i + 1) s2 = Some s'"
    and len: "length (trackBuffer b s') = length (trackBuffer b s2)"
    and vals: "\<And>k. k < n \<Longrightarrow> good (Suc k) \<Longrightarrow> Suc w + k < length (trackBuffer b s2) \<Longrightarrow>
                trackBuffer b s' ! (Suc w + k) = word_of_int (val (Suc k))"
    and keep: "\<And>x. x < Suc w \<Longrightarrow> trackBuffer b s' ! x = trackBuffer b s2 ! x"
    and oth: "trackBuffer (otherTrack b) s' = trackBuffer (otherTrack b) s2"
    by blast
  have r: "bulkLoop K M D DataBuffer aColor aClearBeforeColor aDrawMode tTriggerValue (Suc n) i s = Some s'"
    using c l by simp
  have len': "length (trackBuffer b s') = length (trackBuffer b s)" using len b2 by simp
  have vals': "trackBuffer b s' ! (w + k) = word_of_int (val k)"
    if "k < Suc n" "good k" "w + k < length (trackBuffer b s)" for k
  proof (cases k)
    case 0
    then show ?thesis using keep[of w] b2 that g0 by simp
  next
    case (Suc j)
    then show ?thesis using vals[of j] that b2 by simp
  qed
  have keep': "trackBuffer b s' ! x = trackBuffer b s ! x" if "x < w" for x
    using keep[of x] that b2 by simp
  show ?case using r len' vals' keep' oth o2 by auto
qed

lemma trackBuffer_simps [simp]:
  "trackBuffer InDisplayBuffer s = DisplayBuffer s"
  "trackBuffer InDisplayBufferMin s = DisplayBufferMin s"
  "otherTrack InDisplayBuffer = InDisplayBufferMin"
  "otherTrack InDisplayBufferMin = InDisplayBuffer"
  by (simp_all add: trackBuffer_def otherTrack_def)

lemma toScreen_simps [simp]:
  "DisplayBuffer (toScreen s) = DisplayBuffer s"
  "DisplayBufferMin (toScreen s) = DisplayBufferMin s"
  "Sink (toScreen s) = Sink s"
  by (simp_all add: toScreen_def)

lemma emit_buffers [simp]:
  "DisplayBuffer (emit cmds s) = DisplayBuffer s"
  "DisplayBufferMin (emit cmds s) = DisplayBufferMin s"
  by (simp_all add: emit_def)

text \<open>
  The screen buffers after \<open>drawDataBuffer\<close> in the regular draw mode with a scale that
  is not positive, when \<open>val p k\<close> is the value fetched for column \<open>k\<close> of a pass that
  starts at the data pointer \<open>p\<close>.
\<close>

lemma drawDataBuffer_values_if:
  fixes val :: "int \<Rightarrow> nat \<Rightarrow> int" and I :: "int \<Rightarrow> nat \<Rightarrow> int \<Rightarrow> int \<Rightarrow> bool"
    and good :: "int \<Rightarrow> nat \<Rightarrow> bool"
  assumes xs: "XScale D \<le> 0"
    and fetch: "\<And>p k (t :: bulk_state). k < nat aLength \<Longrightarrow>
             I p k (tDataBufferPointer t) (tXScaleCounter t) \<Longrightarrow>
             \<exists>v t1. fetchValue K M (XScale D) DataBuffer DRAW_MODE_REGULAR t = Some (v, t1) \<and>
                  (\<forall>b. trackBuffer b t1 = trackBuffer b t) \<and>
                  ScreenBufferWritePointer1 t1 = ScreenBufferWritePointer1 t \<and>
                  I p (Suc k) (tDataBufferPointer t1) (tXScaleCounter t1) \<and>
                  (good p k \<longrightarrow> v = val p k)"
    and init: "I p0 0 p0 (- XScale D)"
      "aDrawAlsoMin \<Longrightarrow> I (p0 + DATABUFFER_MIN_OFFSET K) 0 (p0 + DATABUFFER_MIN_OFFSET K) (- XScale D)"
  shows "\<exists>scr'. drawDataBuffer K M D DataBuffer p0 aLength aColor aClearBeforeColor
                  DRAW_MODE_REGULAR aDrawAlsoMin scr = Some scr' \<and>
           (\<forall>i. i < nat aLength \<longrightarrow> good p0 i \<longrightarrow> i < length (DisplayBuffer scr) \<longrightarrow>
                 DisplayBuffer scr' ! i = word_of_int (val p0 i)) \<and>
           (aDrawAlsoMin \<longrightarrow>
              (\<forall>i. i < nat aLength \<longrightarrow> good (p0 + DATABUFFER_MIN_OFFSET K) i \<longrightarrow>
                 i < length (DisplayBufferMin scr) \<longrightarrow>
                 DisplayBufferMin scr' ! i =
                   word_of_int (val (p0 + DATABUFFER_MIN_OFFSET K) i)))"
proof -
  define tTriggerValue where "tTriggerValue = getDisplayFrowRawInputValue K M (RawTriggerLevel M)"
  define s0 :: bulk_state where "s0 =
     \<lparr>DisplayBufferFFT = DisplayBufferFFT scr, DisplayBuffer = DisplayBuffer scr,
      DisplayBufferMin = DisplayBufferMin scr, DisplayBuffer2 = DisplayBuffer2 scr,
      Sink = Sink scr, tDataBufferPointer = p0,
      ScreenBufferReadPointer = (InDisplayBuffer, 0), ScreenBufferWritePointer1 = (InDisplayBuffer, 0),
      ScreenBufferWritePointer2 = 0, tXScaleCounter = XScale D,
      tCounterForTimingGridRestore = 0, tLastValue = 0, tLastValueClear = 0\<rparr>"
  define s0' where "s0' = s0\<lparr>tXScaleCounter := - XScale D\<rparr>"
  have i0: "I p0 0 (tDataBufferPointer s0') (tXScaleCounter s0')"
    using init(1) by (simp add: s0'_def s0_def)
  have w0: "ScreenBufferWritePointer1 s0' = (InDisplayBuffer, 0)" by (simp add: s0'_def s0_def)
  from bulkLoop_values_if[where I = "I p0" and good = "good p0" and val = "val p0" and s = s0'
      and n = "nat aLength" and aColor = aColor and aClearBeforeColor = aClearBeforeColor
      and tTriggerValue = tTriggerValue and i = 0, OF fetch i0 w0]
  obtain s1 where
    l1: "bulkLoop K M D DataBuffer aColor aClearBeforeColor DRAW_MODE_REGULAR tTriggerValue
           (nat aLength) 0 s0' = Some s1"
    and v1: "\<And>k. k < nat aLength \<Longrightarrow> good p0 k \<Longrightarrow> k < length (DisplayBuffer s0') \<Longrightarrow>
               DisplayBuffer s1 ! k = word_of_int (val p0 k)"
    and o1: "DisplayBufferMin s1 = DisplayBufferMin s0'"
    by auto
  have p1: "bulkPass K M D DataBuffer aLength aColor aClearBeforeColor DRAW_MODE_REGULAR
              tTriggerValue s0 = Some s1"
    using xs l1 by (simp add: bulkPass_def s0'_def)
  have b0: "DisplayBuffer s0' = DisplayBuffer scr" "DisplayBufferMin s0' = DisplayBufferMin scr"
    by (simp_all add: s0'_def s0_def)
  define s2 where "s2 = emit [DrawChartByteBuffer BlueDisplay1 0 0 aColor aClearBeforeColor 0
                               (\<not> aDrawAlsoMin) (take (nat aLength) (DisplayBuffer s1))] s1"
  show ?thesis
  proof (cases aDrawAlsoMin)
    case False
    have "drawDataBuffer K M D DataBuffer p0 aLength aColor aClearBeforeColor
            DRAW_MODE_REGULAR aDrawAlsoMin scr = Some (toScreen s2)"
      using False p1
      by (simp add: drawDataBuffer_def Let_def s0_def[symmetric] tTriggerValue_def[symmetric] s2_def)
    then show ?thesis using False v1 b0 by (simp add: s2_def)
  next
    case True
    define s3 where "s3 = s2\<lparr>ScreenBufferReadPointer := (InDisplayBufferMin, 0),
                               ScreenBufferWritePointer1 := (InDisplayBufferMin, 0),
                               tDataBufferPointer := p0 + DATABUFFER_MIN_OFFSET K\<rparr>"
    define s3' where "s3' = s3\<lparr>tXScaleCounter := - XScale D\<rparr>"
    have i3: "I (p0 + DATABUFFER_MIN_OFFSET K) 0 (tDataBufferPointer s3') (tXScaleCounter s3')"
      using init(2)[OF True] by (simp add: s3'_def s3_def)
    have w3: "ScreenBufferWritePointer1 s3' = (InDisplayBufferMin, 0)" by (simp add: s3'_def s3_def)
    have b3: "DisplayBuffer s3' = DisplayBuffer s1" "DisplayBufferMin s3' = DisplayBufferMin s1"
      by (simp_all add: s3'_def s3_def s2_def)
    from bulkLoop_values_if[where I = "I (p0 + DATABUFFER_MIN_OFFSET K)"
        and good = "good (p0 + DATABUFFER_MIN_OFFSET K)"
        and val = "val (p0 + DATABUFFER_MIN_OFFSET K)" and s = s3' and n = "nat aLength"
        and aColor = aColor and aClearBeforeColor = aClearBeforeColor
        and tTriggerValue = tTriggerValue and i = 0, OF fetch i3 w3]
    obtain s4 where
      l4: "bulkLoop K M D DataBuffer aColor aClearBeforeColor DRAW_MODE_REGULAR tTriggerValue
             (nat aLength) 0 s3' = Some s4"
      and v4: "\<And>k. k < nat aLength \<Longrightarrow> good (p0 + DATABUFFER_MIN_OFFSET K) k \<Longrightarrow>
                 k < length (DisplayBufferMin s3') \<Longrightarrow>
                 DisplayBufferMin s4 ! k = word_of_int (val (p0 + DATABUFFER_MIN_OFFSET K) k)"
      and o4: "DisplayBuffer s4 = DisplayBuffer s3'"
      by auto
    have p4: "bulkPass K M D DataBuffer aLength aColor aClearBeforeColor DRAW_MODE_REGULAR
                tTriggerValue s3 = Some s4"
      using xs l4 by (simp add: bulkPass_def s3'_def)
    have "drawDataBuffer K M D DataBuffer p0 aLength aColor aClearBeforeColor
            DRAW_MODE_REGULAR aDrawAlsoMin scr =
          Some (toScreen (emit [DrawChartByteBuffer BlueDisplay1 0 0 aColor aClearBeforeColor 1 True
                                  (take (nat aLength) (DisplayBufferMin s4))] s4))"
      using True p1 p4[unfolded s3_def s2_def]
      by (simp add: drawDataBuffer_def Let_def s0_def[symmetric] tTriggerValue_def[symmetric])
    then show ?thesis using True v1 v4 o4 o1 b0 b3 by simp
  qed
qed

text \<open>The same when every column has the value \<open>val p k\<close>.\<close>

lemma drawDataBuffer_values:
  fixes val :: "int \<Rightarrow> nat \<Rightarrow> int" and I :: "int \<Rightarrow> nat \<Rightarrow> int \<Rightarrow> int \<Rightarrow> bool"
  assumes xs: "XScale D \<le> 0"
    and ok: "ok p0" "aDrawAlsoMin \<Longrightarrow> ok (p0 + DATABUFFER_MIN_OFFSET K)"
    and fetch: "\<And>p k (t :: bulk_state). ok p \<Longrightarrow> k < nat aLength \<Longrightarrow>
             I p k (tDataBufferPointer t) (tXScaleCounter t) \<Longrightarrow>
             \<exists>t1. fetchValue K M (XScale D) DataBuffer DRAW_MODE_REGULAR t = Some (val p k, t1) \<and>
                  (\<forall>b. trackBuffer b t1 = trackBuffer b t) \<and>
                  ScreenBufferWritePointer1 t1 = ScreenBufferWritePointer1 t \<and>
                  I p (Suc k) (tDataBufferPointer t1) (tXScaleCounter t1)"
    and init: "\<And>p. ok p \<Longrightarrow> I p 0 p (- XScale D)"
  shows "\<exists>scr'. drawDataBuffer K M D DataBuffer p0 aLength aColor aClearBeforeColor
                  DRAW_MODE_REGULAR aDrawAlsoMin scr = Some scr' \<and>
           (\<forall>i. i < nat aLength \<longrightarrow> i < length (DisplayBuffer scr) \<longrightarrow>
                 DisplayBuffer scr' ! i = word_of_int (val p0 i)) \<and>
           (aDrawAlsoMin \<longrightarrow>
              (\<forall>i. i < nat aLength \<longrightarrow> i < length (DisplayBufferMin scr) \<longrightarrow>
                 DisplayBufferMin scr' ! i =
                   word_of_int (val (p0 + DATABUFFER_MIN_OFFSET K) i)))"
proof -
  let ?I = "\<lambda>p k ptr c. ok p \<and> I p k ptr c"
  have f: "\<exists>v t1. fetchValue K M (XScale D) DataBuffer DRAW_MODE_REGULAR t = Some (v, t1) \<and>
                  (\<forall>b. trackBuffer b t1 = trackBuffer b t) \<and>
                  ScreenBufferWritePointer1 t1 = ScreenBufferWritePointer1 t \<and>
                  ?I p (Suc k) (tDataBufferPointer t1) (tXScaleCounter t1) \<and>
                  (True \<longrightarrow> v = val p k)"
    if "k < nat aLength" "?I p k (tDataBufferPointer t) (tXScaleCounter t)"
    for p k and t :: bulk_state
    using fetch[of p k t] that by auto
  have i1: "?I p0 0 p0 (- XScale D)" using ok(1) init by simp
  have i2: "?I (p0 + DATABUFFER_MIN_OFFSET K) 0 (p0 + DATABUFFER_MIN_OFFSET K) (- XScale D)"
    if aDrawAlsoMin
    using ok(2)[OF that] init by simp
  from drawDataBuffer_values_if[where I = ?I and good = "\<lambda>p k. True" and val = val,
      OF xs f i1 i2]
  show ?thesis by simp
qed

lemma readRaw_bounds: "0 \<le> readRaw buf p" "readRaw buf p \<le> 65535"
proof -
  show "0 \<le> readRaw buf p" by (simp add: readRaw_def)
  have "uint (buf ! nat p) < 2 ^ 16" using uint_lt2p[of "buf ! nat p"] by simp
  then show "readRaw buf p \<le> 65535" by (simp add: readRaw_def)
qed

lemma rawSum_Suc: "rawSum buf p (Suc n) = readRaw buf p + rawSum buf (p + 1) n"
proof -
  have "(\<Sum>j<Suc n. readRaw buf (p + int j)) =
        readRaw buf (p + int 0) + (\<Sum>j<n. readRaw buf (p + int (Suc j)))"
    by (rule sum.lessThan_Suc_shift)
  moreover have "p + int (Suc j) = p + 1 + int j" for j by simp
  ultimately have "(\<Sum>j<Suc n. readRaw buf (p + int j)) =
        readRaw buf (p + int 0) + (\<Sum>j<n. readRaw buf (p + 1 + int j))"
    by (simp only:)
  then show ?thesis by (simp add: rawSum_def del: sum.lessThan_Suc)
qed

lemma rawSum_bounds: "0 \<le> rawSum buf p n" "rawSum buf p n \<le> int n * 65535"
proof -
  show "0 \<le> rawSum buf p n" unfolding rawSum_def by (intro sum_nonneg readRaw_bounds)
  have "(\<Sum>j<n. readRaw buf (p + int j)) \<le> (\<Sum>j<n. 65535)"
    by (intro sum_mono readRaw_bounds)
  then show "rawSum buf p n \<le> int n * 65535" by (simp add: rawSum_def)
qed

lemma sumRaw_rawSum:
  "0 \<le> acc \<Longrightarrow> acc + int n * 65535 < 2 ^ 31 \<Longrightarrow> sumRaw buf p n acc = acc + rawSum buf p n"
proof (induction n arbitrary: p acc)
  case 0
  show ?case by (simp add: rawSum_def)
next
  case (Suc n)
  let ?r = "readRaw buf p"
  have r: "0 \<le> ?r" "?r \<le> 65535" by (rule readRaw_bounds)+
  have fit: "fits32 (acc + ?r)" using Suc.prems r by (simp add: fits32_def algebra_simps)
  have "sumRaw buf p (Suc n) acc = sumRaw buf (p + 1) n (acc + ?r)"
    by (simp add: wrap32_id[OF fit])
  also have "\<dots> = acc + ?r + rawSum buf (p + 1) n"
    using Suc.prems r by (intro Suc.IH) (simp_all add: algebra_simps)
  finally show ?case by (simp add: rawSum_Suc)
qed

lemma getDisplayFrowMultipleRawValues_average:
  assumes "0 < aCount" "aCount \<le> 32768"
  shows "getDisplayFrowMultipleRawValues K M buf p aCount =
           Some (getDisplayFrowRawInputValue K M (rawSum buf p (nat aCount) div aCount))"
proof -
  let ?S = "rawSum buf p (nat aCount)"
  have b: "0 \<le> ?S" "?S \<le> int (nat aCount) * 65535" by (rule rawSum_bounds)+
  have "int (nat aCount) * 65535 \<le> 32768 * 65535" using assms by simp
  then have lt: "?S < 2 ^ 31" using b(2) by simp
  have s: "sumRaw buf p (nat aCount) 0 = ?S"
    using sumRaw_rawSum[of 0 "nat aCount" buf p] b(2) lt assms by simp
  have d: "c_div ?S aCount = ?S div aCount" using b(1) assms(1) by (rule c_div_nonneg)
  have "0 \<le> ?S div aCount" using b(1) assms(1) by (simp add: pos_imp_zdiv_nonneg_iff)
  moreover have "?S div aCount \<le> ?S"
    using zdiv_mono2[of ?S 1 aCount] b(1) assms(1) by simp
  ultimately have "fits32 (?S div aCount)" using lt by (simp add: fits32_def)
  then show ?thesis
    using assms(1) by (simp add: getDisplayFrowMultipleRawValues_def s d wrap32_id)
qed

text \<open>
  C3. With a scale \<open>r < - 1\<close> (and at most 32768 samples per column, so that their sum
  fits an \<open>int\<close>) a regular pass stores in column \<open>i\<close> the low byte of the mapper
  applied once to the sum of the \<open>|r|\<close> raw samples \<open>i * |r| .. i * |r| + |r| - 1\<close> after
  the data pointer, divided by \<open>|r|\<close>; with \<open>aDrawAlsoMin\<close> the minimum track gets the
  same from the samples \<open>DATABUFFER_MIN_OFFSET\<close> further.
\<close>

theorem compress_maps_raw_average:
  assumes "XScale D < - 1" and "- XScale D \<le> 32768"
  shows "\<exists>scr'. drawDataBuffer K M D DataBuffer p aLength aColor aClearBeforeColor
                  DRAW_MODE_REGULAR aDrawAlsoMin scr = Some scr' \<and>
           (\<forall>i. i < nat aLength \<longrightarrow> i < length (DisplayBuffer scr) \<longrightarrow>
                 DisplayBuffer scr' ! i =
                   word_of_int (getDisplayFrowRawInputValue K M
                     (rawSum DataBuffer (p + int i * (- XScale D)) (nat (- XScale D))
                        div (- XScale D)))) \<and>
           (aDrawAlsoMin \<longrightarrow>
              (\<forall>i. i < nat aLength \<longrightarrow> i < length (DisplayBufferMin scr) \<longrightarrow>
                 DisplayBufferMin scr' ! i =
                   word_of_int (getDisplayFrowRawInputValue K M
                     (rawSum DataBuffer (p + DATABUFFER_MIN_OFFSET K + int i * (- XScale D))
                        (nat (- XScale D)) div (- XScale D)))))"
proof -
  let ?n = "- XScale D"
  let ?val = "\<lambda>q k. getDisplayFrowRawInputValue K M
                     (rawSum DataBuffer (q + int k * ?n) (nat ?n) div ?n)"
  let ?I = "\<lambda>q k (ptr :: int) (c :: int). ptr = q + int k * ?n \<and> c = ?n"
  have n: "0 < ?n" using assms(1) by simp
  have fetch: "\<exists>t1. fetchValue K M (XScale D) DataBuffer DRAW_MODE_REGULAR t = Some (?val q k, t1) \<and>
                  (\<forall>b. trackBuffer b t1 = trackBuffer b t) \<and>
                  ScreenBufferWritePointer1 t1 = ScreenBufferWritePointer1 t \<and>
                  ?I q (Suc k) (tDataBufferPointer t1) (tXScaleCounter t1)"
    if "k < nat aLength" "?I q k (tDataBufferPointer t) (tXScaleCounter t)"
    for q k and t :: bulk_state
  proof -
    have "fetchValue K M (XScale D) DataBuffer DRAW_MODE_REGULAR t =
            Some (?val q k, t\<lparr>tDataBufferPointer := tDataBufferPointer t + ?n\<rparr>)"
      using assms(1) that(2) getDisplayFrowMultipleRawValues_average[OF n assms(2)]
      by (simp add: fetchValue_def Let_def)
    then show ?thesis using that(2) by (simp add: algebra_simps)
  qed
  have init: "?I q 0 q ?n" for q by simp
  have xs: "XScale D \<le> 0" using assms(1) by simp
  show ?thesis
  proof (rule drawDataBuffer_values[where I = ?I and val = ?val and ok = "\<lambda>q. True"])
    show "XScale D \<le> 0" by (rule xs)
    show "True" "True" by simp_all
    show "?I q 0 q (- XScale D)" for q by (rule init)
    show "\<exists>t1. fetchValue K M (XScale D) DataBuffer DRAW_MODE_REGULAR t = Some (?val q k, t1) \<and>
                  (\<forall>b. trackBuffer b t1 = trackBuffer b t) \<and>
                  ScreenBufferWritePointer1 t1 = ScreenBufferWritePointer1 t \<and>
                  ?I q (Suc k) (tDataBufferPointer t1) (tXScaleCounter t1)"
      if "k < nat aLength" "?I q k (tDataBufferPointer t) (tXScaleCounter t)"
      for q k and t :: bulk_state
      using that by (rule fetch)
  qed
qed

text \<open>
  C4, as the code has it. With the scale \<open>- 1\<close> a regular pass consumes three samples
  for two columns: an even column \<open>2 * k\<close> holds the mapped sample \<open>3 * k\<close>, an odd column
  \<open>2 * k + 1\<close> the integer average of the two rows to which the samples \<open>3 * k + 1\<close> and
  \<open>3 * k + 2\<close> are mapped: each sample is mapped, then the rows are averaged. This holds
  of a column as long as no sample of an averaged pair, up to and including the pair of
  that column, is mapped to the sentinel. The call returns for every buffer.
\<close>

theorem compress_3_2_averages_rows:
  assumes "XScale D = - 1"
  shows "\<exists>scr'. drawDataBuffer K M D DataBuffer p aLength aColor aClearBeforeColor
                  DRAW_MODE_REGULAR aDrawAlsoMin scr = Some scr' \<and>
           (\<forall>i. i < nat aLength \<longrightarrow> pairsVisible K M DataBuffer p i \<longrightarrow>
                 i < length (DisplayBuffer scr) \<longrightarrow>
                 DisplayBuffer scr' ! i = word_of_int (pairValue K M DataBuffer p i)) \<and>
           (aDrawAlsoMin \<longrightarrow>
              (\<forall>i. i < nat aLength \<longrightarrow>
                 pairsVisible K M DataBuffer (p + DATABUFFER_MIN_OFFSET K) i \<longrightarrow>
                 i < length (DisplayBufferMin scr) \<longrightarrow>
                 DisplayBufferMin scr' ! i =
                   word_of_int (pairValue K M DataBuffer (p + DATABUFFER_MIN_OFFSET K) i)))"
proof -
  let ?know = "\<lambda>q k. k = 0 \<or> pairsVisible K M DataBuffer q (k - 1)"
  let ?I = "\<lambda>q k (ptr :: int) (c :: int).
     (c = 0 \<or> c = 1) \<and>
     (?know q k \<longrightarrow>
       (even k \<longrightarrow> ptr = q + 3 * int (k div 2) \<and> c = 1) \<and>
       (odd k \<longrightarrow> ptr = q + 3 * int (k div 2) + 1 \<and> c = 0))"
  have mono: "pairsVisible K M DataBuffer q j" if "pairsVisible K M DataBuffer q k" "j \<le> k" for q j k
    using that by (auto simp add: pairsVisible_def)
  have fetch: "\<exists>v t1. fetchValue K M (XScale D) DataBuffer DRAW_MODE_REGULAR t = Some (v, t1) \<and>
                  (\<forall>b. trackBuffer b t1 = trackBuffer b t) \<and>
                  ScreenBufferWritePointer1 t1 = ScreenBufferWritePointer1 t \<and>
                  ?I q (Suc k) (tDataBufferPointer t1) (tXScaleCounter t1) \<and>
                  (pairsVisible K M DataBuffer q k \<longrightarrow> v = pairValue K M DataBuffer q k)"
    if k: "k < nat aLength" and inv: "?I q k (tDataBufferPointer t) (tXScaleCounter t)"
    for q k and t :: bulk_state
  proof (cases "pairsVisible K M DataBuffer q k")
    case False
    then have nk: "\<not> ?know q (Suc k)" by simp
    from inv have "tXScaleCounter t = 0 \<or> tXScaleCounter t = 1" by simp
    then show ?thesis
      using assms False nk
      by (auto simp add: fetchValue_def Let_def)
  next
    case vis: True
    have kn: "?know q k" using mono[OF vis, of "k - 1"] by simp
    show ?thesis
    proof (cases "even k")
      case True
      then have pc: "tDataBufferPointer t = q + 3 * int (k div 2)" "tXScaleCounter t = 1"
        using inv kn by auto
      have "fetchValue K M (XScale D) DataBuffer DRAW_MODE_REGULAR t =
              Some (pairValue K M DataBuffer q k,
                    t\<lparr>tDataBufferPointer := tDataBufferPointer t + 1, tXScaleCounter := 0\<rparr>)"
        using assms True by (simp add: fetchValue_def Let_def pc pairValue_def)
      then show ?thesis using True pc by simp
    next
      case False
      then have pc: "tDataBufferPointer t = q + 3 * int (k div 2) + 1" "tXScaleCounter t = 0"
        using inv kn by auto
      have v1: "getDisplayFrowRawInputValue K M (readRaw DataBuffer (q + 3 * int (k div 2) + 1))
                   \<noteq> DISPLAYBUFFER_INVISIBLE_VALUE K"
        using vis False by (simp add: pairsVisible_def)
      have "fetchValue K M (XScale D) DataBuffer DRAW_MODE_REGULAR t =
              Some (pairValue K M DataBuffer q k,
                    t\<lparr>tDataBufferPointer := tDataBufferPointer t + 2, tXScaleCounter := 1\<rparr>)"
        using assms False v1
        by (simp add: fetchValue_def Let_def pc pairValue_def averageOfRows_def add.assoc)
      moreover have "Suc k div 2 = Suc (k div 2)" using False by presburger
      ultimately show ?thesis using False pc by simp
    qed
  qed
  have init: "?I q 0 q (- XScale D)" for q using assms by simp
  have xs: "XScale D \<le> 0" using assms by simp
  show ?thesis
  proof (rule drawDataBuffer_values_if[where I = ?I and val = "pairValue K M DataBuffer"
        and good = "pairsVisible K M DataBuffer"])
    show "XScale D \<le> 0" by (rule xs)
    show "?I p 0 p (- XScale D)" by (rule init)
    show "?I (p + DATABUFFER_MIN_OFFSET K) 0 (p + DATABUFFER_MIN_OFFSET K) (- XScale D)"
      by (rule init)
    show "\<exists>v t1. fetchValue K M (XScale D) DataBuffer DRAW_MODE_REGULAR t = Some (v, t1) \<and>
                  (\<forall>b. trackBuffer b t1 = trackBuffer b t) \<and>
                  ScreenBufferWritePointer1 t1 = ScreenBufferWritePointer1 t \<and>
                  ?I q (Suc k) (tDataBufferPointer t1) (tXScaleCounter t1) \<and>
                  (pairsVisible K M DataBuffer q k \<longrightarrow> v = pairValue K M DataBuffer q k)"
      if "k < nat aLength" "?I q k (tDataBufferPointer t) (tXScaleCounter t)"
      for q k and t :: bulk_state
      using that by (rule fetch)
  qed
qed

text \<open>
  Scale \<open>- 2\<close> on the samples 10, 20, 30, 41: the averages 15 and 35 are mapped, to the
  rows 224 and 204 (the average of the rows of 30 and 41 would be 203).
\<close>

theorem compress_maps_raw_average_witness:
  "XScale Dcomp2 = - 2 \<and>
   rawSum DataC 0 2 div 2 = 15 \<and> getDisplayFrowRawInputValue K0 M2 15 = 224 \<and>
   rawSum DataC 2 2 div 2 = 35 \<and> getDisplayFrowRawInputValue K0 M2 35 = 204 \<and>
   (\<exists>scr'. drawDataBuffer K0 M2 Dcomp2 DataC 0 2 9 0 DRAW_MODE_REGULAR False Stiny = Some scr' \<and>
      DisplayBuffer scr' ! 0 = 224 \<and> DisplayBuffer scr' ! 1 = 204)"
proof -
  have x: "XScale Dcomp2 = - 2" by code_simp
  have h1: "XScale Dcomp2 < - 1" unfolding x by simp
  have h2: "- XScale Dcomp2 \<le> 32768" unfolding x by simp
  have len: "length (DisplayBuffer Stiny) = 2" by code_simp
  have a0: "rawSum DataC 0 2 div 2 = 15" by code_simp
  have a1: "rawSum DataC 2 2 div 2 = 35" by code_simp
  have d0: "getDisplayFrowRawInputValue K0 M2 15 = 224" by code_simp
  have d1: "getDisplayFrowRawInputValue K0 M2 35 = 204" by code_simp
  from compress_maps_raw_average[OF h1 h2, of K0 M2 DataC 0 2 9 0 False Stiny]
  obtain scr' where r: "drawDataBuffer K0 M2 Dcomp2 DataC 0 2 9 0 DRAW_MODE_REGULAR False Stiny = Some scr'"
    and v: "\<And>i. i < nat 2 \<Longrightarrow> i < length (DisplayBuffer Stiny) \<Longrightarrow>
                 DisplayBuffer scr' ! i =
                   word_of_int (getDisplayFrowRawInputValue K0 M2
                     (rawSum DataC (0 + int i * (- XScale Dcomp2)) (nat (- XScale Dcomp2))
                        div (- XScale Dcomp2)))"
    by blast
  have "DisplayBuffer scr' ! 0 = 224" using v[of 0] unfolding x len by (simp add: a0 d0)
  moreover have "DisplayBuffer scr' ! 1 = 204" using v[of 1] unfolding x len by (simp add: a1 d1)
  ultimately show ?thesis using x a0 a1 d0 d1 r by blast
qed

text \<open>
  On range 3 the samples 104 and 105 are mapped to the rows 239 and 238. Column 1 holds
  238, the average of the rows; the raw average 104 is mapped to 239. With the marker
  as the first sample of a pair, column 1 holds the sentinel, not an average (the raw
  average of the pair is mapped to row 0), the second sample of the pair is not
  consumed, and the columns 2 and 3 hold the row of the sample 2 and the average of the
  rows of the samples 3 and 4.
\<close>

theorem compress_3_2_counterexample:
  "map_option DisplayBuffer
     (drawDataBuffer K0 M0 Dcomp32 DataP 0 2 9 0 DRAW_MODE_REGULAR False Stiny) = Some [239, 238] \<and>
   getDisplayFrowRawInputValue K0 M0 (readRaw DataP 1) = 239 \<and>
   getDisplayFrowRawInputValue K0 M0 (readRaw DataP 2) = 238 \<and>
   getDisplayFrowRawInputValue K0 M0 ((readRaw DataP 1 + readRaw DataP 2) div 2) = 239 \<and>
   map_option DisplayBuffer
     (drawDataBuffer K0 M0 Dcomp32 DataQ 0 4 9 0 DRAW_MODE_REGULAR False Sfour) =
       Some [228, 255, 216, 198] \<and>
   getDisplayFrowRawInputValue K0 M0 (readRaw DataQ 1) = DISPLAYBUFFER_INVISIBLE_VALUE K0 \<and>
   getDisplayFrowRawInputValue K0 M0 ((readRaw DataQ 1 + readRaw DataQ 2) div 2) = 0 \<and>
   getDisplayFrowRawInputValue K0 M0 (readRaw DataQ 2) = 216 \<and>
   getDisplayFrowRawInputValue K0 M0 (readRaw DataQ 3) = 204 \<and>
   getDisplayFrowRawInputValue K0 M0 (readRaw DataQ 4) = 192"
  by code_simp

text \<open>
  A pass of four columns over a buffer whose second averaged pair starts with the
  marker: the columns 0, 1 and 2 hold the row of the sample 100, the average of two
  rows and the row of the sample 100 again; the statement is silent on column 3.
\<close>

theorem compress_3_2_averages_rows_witness:
  "XScale Dcomp32 = - 1 \<and>
   pairsVisible K0 M0 DataR 0 0 \<and> pairsVisible K0 M0 DataR 0 1 \<and> pairsVisible K0 M0 DataR 0 2 \<and>
   \<not> pairsVisible K0 M0 DataR 0 3 \<and>
   pairValue K0 M0 DataR 0 0 = 239 \<and> pairValue K0 M0 DataR 0 1 = 238 \<and>
   pairValue K0 M0 DataR 0 2 = 239 \<and>
   (\<exists>scr'. drawDataBuffer K0 M0 Dcomp32 DataR 0 4 9 0 DRAW_MODE_REGULAR False Sfour = Some scr' \<and>
      DisplayBuffer scr' ! 0 = 239 \<and> DisplayBuffer scr' ! 1 = 238 \<and> DisplayBuffer scr' ! 2 = 239)"
proof -
  have h1: "XScale Dcomp32 = - 1" by code_simp
  have g0: "pairsVisible K0 M0 DataR 0 0" by code_simp
  have g1: "pairsVisible K0 M0 DataR 0 1" by code_simp
  have g2: "pairsVisible K0 M0 DataR 0 2" by code_simp
  have g3: "\<not> pairsVisible K0 M0 DataR 0 3" by code_simp
  have len: "length (DisplayBuffer Sfour) = 4" by code_simp
  have p0: "pairValue K0 M0 DataR 0 0 = 239" by code_simp
  have p1: "pairValue K0 M0 DataR 0 1 = 238" by code_simp
  have p2: "pairValue K0 M0 DataR 0 2 = 239" by code_simp
  from compress_3_2_averages_rows[OF h1, of K0 M0 DataR 0 4 9 0 False Sfour]
  obtain scr' where r: "drawDataBuffer K0 M0 Dcomp32 DataR 0 4 9 0 DRAW_MODE_REGULAR False Sfour = Some scr'"
    and v: "\<And>i. i < nat 4 \<Longrightarrow> pairsVisible K0 M0 DataR 0 i \<Longrightarrow> i < length (DisplayBuffer Sfour) \<Longrightarrow>
                 DisplayBuffer scr' ! i = word_of_int (pairValue K0 M0 DataR 0 i)"
    by auto
  have "DisplayBuffer scr' ! 0 = 239" using v[of 0, OF _ g0] unfolding len by (simp add: p0)
  moreover have "DisplayBuffer scr' ! 1 = 238" using v[of 1] g1 p1 unfolding len by simp
  moreover have "DisplayBuffer scr' ! 2 = 239" using v[of 2, OF _ g2] unfolding len by (simp add: p2)
  ultimately show ?thesis using h1 g0 g1 g2 g3 p0 p1 p2 r by blast
qed

section \<open>The sentinel\<close>






lemma buffers_fftLoop:
  "DisplayBuffer (draw128FFTValuesLoop K aColor tScaled x k s) = DisplayBuffer s \<and>
   DisplayBufferMin (draw128FFTValuesLoop K aColor tScaled x k s) = DisplayBufferMin s"
proof (induction K aColor tScaled x k s rule: draw128FFTValuesLoop.induct)
  case (1 K aColor tScaled x k s)
  show ?case
  proof (cases "x < DSO_DISPLAY_WIDTH K")
    case False
    then show ?thesis by (subst (1 2) draw128FFTValuesLoop.simps) simp
  next
    case True
    show ?thesis
      by (subst (1 2) draw128FFTValuesLoop.simps)
         (simp add: True Let_def "1.IH"[OF True refl refl refl refl])
  qed
qed

lemma buffers_fft [simp]:
  "DisplayBuffer (draw128FFTValuesFast K D aColor tScaled s) = DisplayBuffer s"
  "DisplayBufferMin (draw128FFTValuesFast K D aColor tScaled s) = DisplayBufferMin s"
  by (simp_all add: draw128FFTValuesFast_def buffers_fftLoop)

lemma buffers_clearOld [simp]:
  "DisplayBuffer (clearOld K M D x s) = DisplayBuffer s"
  "DisplayBufferMin (clearOld K M D x s) = DisplayBufferMin s"
  by (simp_all add: clearOld_def Let_def)














lemma issued_append [simp]: "issued xs (xs @ ys) = ys"
  by (simp add: issued_def)

declare sink_emit [simp]

lemma drawsEntries_simps [simp]:
  "drawsEntries K E (DrawPixel d x y col) = (0 \<le> x \<and> y \<noteq> DISPLAYBUFFER_INVISIBLE_VALUE K \<and> E x y)"
  "drawsEntries K E (DrawLineFastOneX d x y0 y1 col) =
     ((0 \<le> x \<and> y0 \<noteq> DISPLAYBUFFER_INVISIBLE_VALUE K \<and> E x y0) \<and>
      (0 \<le> x + 1 \<and> y1 \<noteq> DISPLAYBUFFER_INVISIBLE_VALUE K \<and> E (x + 1) y1))"
  "drawsEntries K E (FillRect d x0 y0 x1 y1 col)"
  "drawsEntries K E (DrawChartByteBuffer d a b col clr i f buf)"
  "drawsEntries K E (DrawLineRel d x0 y0 x1 y1 col)"
  by (simp_all add: drawsEntries_def endPoints_def)








lemma readScreen_track: "readScreen s (b, w) = uint (trackBuffer b s ! w)"
  by (cases b) (simp_all add: readScreen_def)

lemma emit_readPointer [simp]:
  "ScreenBufferReadPointer (emit cmds s) = ScreenBufferReadPointer s"
  by (simp add: emit_def)

















end
